theory Spec2Isabelle
  imports Main "HOL-Library.Sublist"
begin

section \<open>Strings and numbers of the JavaScript source\<close>

text \<open>
  JavaScript strings are modelled as \<open>string\<close>, numbers that the code uses as
  integers (lengths, HTTP status codes, epoch milliseconds) as \<open>nat\<close> or \<open>int\<close>.
  A Number is a double: \<open>parseInt\<close> of a digit run is its decimal value rounded to
  the nearest double, ties to even (\<open>toNumber\<close>), which is the value itself below
  \<open>2^53\<close>.  Every finite double from \<open>2^53\<close> on is an integer and is modelled by
  that integer; \<open>Infinity\<close>, the result for a run that rounds to \<open>2^1024\<close> or more,
  is modelled by \<open>2^1024\<close>, which like \<open>Infinity\<close> is equal only to itself
  among the results and greater than every value \<open>Date.now()\<close> can return (at most
  \<open>8.64 * 10^15\<close> in magnitude).  Console logging is not modelled.
\<close>

text \<open>\<open>String.prototype.includes\<close>: does \<open>m\<close> occur in \<open>s\<close> as a contiguous run?\<close>

fun str_includes :: "string \<Rightarrow> string \<Rightarrow> bool" where
  "str_includes [] m = (m = [])"
| "str_includes (c # cs) m = (prefix m (c # cs) \<or> str_includes cs m)"

text \<open>The template literal \<open>${n}\<close> of a non-negative integer: its decimal digits.\<close>

fun string_of_nat :: "nat \<Rightarrow> string" where
  "string_of_nat n =
     (if n < 10 then [char_of (48 + n)]
      else string_of_nat (n div 10) @ [char_of (48 + n mod 10)])"

declare string_of_nat.simps [simp del]

text \<open>\<open>text.replace(/"/g, '')\<close>: every double quote removed.\<close>

definition strip_quotes :: "string \<Rightarrow> string" where
  "strip_quotes s = filter (\<lambda>ch. ch \<noteq> CHR 0x22) s"

text \<open>\<open>toLowerCase\<close> on the ASCII letters (region tags are ASCII).\<close>

definition toLowerCase :: "string \<Rightarrow> string" where
  "toLowerCase s =
     map (\<lambda>ch. let n = (of_char ch :: nat) in
                 if 65 \<le> n \<and> n \<le> 90 then char_of (n + 32) else ch) s"

text \<open>The regular expression class \<open>\d\<close>: the ASCII digits.\<close>

definition isDigit :: "char \<Rightarrow> bool" where
  "isDigit ch = (let n = (of_char ch :: nat) in 48 \<le> n \<and> n \<le> 57)"

definition digitVal :: "char \<Rightarrow> int" where
  "digitVal ch = int (of_char ch) - 48"

text \<open>The number of bits of a positive integer.\<close>

function bit_length :: "int \<Rightarrow> nat" where
  "bit_length n = (if n \<le> 0 then 0 else Suc (bit_length (n div 2)))"
  by pat_completeness auto
termination
  by (relation "measure nat") auto

declare bit_length.simps [simp del]

text \<open>
  The Number for a non-negative integer: the integer itself below \<open>2^53\<close>, and
  otherwise the integer rounded to 53 significant bits, a tie going to the even
  significand; \<open>2^1024\<close> stands for \<open>Infinity\<close>.
\<close>

definition toNumber :: "int \<Rightarrow> int" where
  "toNumber n =
     (if n < 2 ^ 53 then n
      else
        let e = bit_length n - 53;
            q = n div 2 ^ e;
            r = n mod 2 ^ e;
            half = 2 ^ (e - 1);
            rounded = (if half < r \<or> (r = half \<and> odd q) then q + 1 else q) * 2 ^ e
        in min rounded (2 ^ 1024))"

text \<open>
  \<open>parseInt\<close> on a string of decimal digits: the integer the digits denote in
  radix 10, as a Number.
\<close>

definition digitsValue :: "string \<Rightarrow> int" where
  "digitsValue ds = foldl (\<lambda>acc ch. 10 * acc + digitVal ch) 0 ds"

definition parseInt :: "string \<Rightarrow> int" where
  "parseInt ds = toNumber (digitsValue ds)"

text \<open>The truthiness of a field that is \<open>null\<close> or a string: \<open>!x\<close>.\<close>

definition falsy :: "string option \<Rightarrow> bool" where
  "falsy x = (case x of None \<Rightarrow> True | Some s \<Rightarrow> s = [])"


section \<open>Readings, replies and the remote service\<close>

text \<open>
  A glucose reading as the read endpoint returns it, and the record the write endpoint
  accepts: the same fields without \<open>WT\<close>.
\<close>

record egv =
  Trend :: string
  ST :: string
  DT :: string
  Value :: int

record reading = egv +
  WT :: string

text \<open>
  What \<open>response.json()\<close> gives, as far as the client looks at it: \<open>null\<close> (also
  for a body that is not JSON), an array of readings, an object with optional string
  fields \<open>Code\<close> and \<open>Message\<close>, or any other value.
\<close>

datatype json =
    JNull
  | JOther
  | JObj "string option" "string option"
  | JArr "reading list"

fun jsonCode :: "json \<Rightarrow> string option" where
  "jsonCode (JObj c m) = c"
| "jsonCode _ = None"

fun jsonMessage :: "json \<Rightarrow> string option" where
  "jsonMessage (JObj c m) = m"
| "jsonMessage _ = None"

text \<open>\<open>error?.Message || d\<close>: the message, or \<open>d\<close> when it is missing or empty.\<close>

definition messageOr :: "json \<Rightarrow> string \<Rightarrow> string" where
  "messageOr j d =
     (case jsonMessage j of None \<Rightarrow> d | Some m \<Rightarrow> if m = [] then d else m)"

text \<open>
  The outcome of one \<open>makeRequest\<close>: a response with its status, body text and parsed
  body, or a rejection of the promise by the transport with an error message.
\<close>

datatype reply =
    Reply nat string json
  | Rejected string

definition ok :: "nat \<Rightarrow> bool" where
  "ok st = (200 \<le> st \<and> st < 300)"

text \<open>The requests the client sends: base URL first, then the parameters and payload.\<close>

datatype request =
    AuthenticatePublisherAccount string string string string
  | LoginPublisherAccountById string "string option" string string
  | ReadPublisherLatestGlucoseValues string "string option" int int
  | PostReceiverEgvRecords string "string option" string "egv list" int

text \<open>
  The world outside the process.  All requests of a run are awaited one after the
  other, so the remote services are a script of replies, consumed in the order the
  requests are made; \<open>requests\<close> records what was sent.  Once the script is used up
  the network is down: the transport rejects every request.  \<open>clock\<close> is what
  \<open>Date.now()\<close> returns, \<open>tzOffset\<close> what \<open>getTimezoneOffset()\<close> returns.
\<close>

record world =
  replies :: "reply list"
  requests :: "request list"
  clock :: int
  tzOffset :: int

definition makeRequest :: "request \<Rightarrow> world \<Rightarrow> reply \<times> world" where
  "makeRequest req w =
     (case replies w of
        [] \<Rightarrow> (Rejected ''connect ECONNREFUSED'', w\<lparr>requests := requests w @ [req]\<rparr>)
      | r # rs \<Rightarrow> (r, w\<lparr>replies := rs, requests := requests w @ [req]\<rparr>))"


section \<open>DexcomClient\<close>

record client =
  username :: string
  password :: string
  region :: string
  baseUrl :: string
  applicationId :: string
  sessionId :: "string option"
  accountId :: "string option"

definition BaseUrls :: "string \<Rightarrow> string option" where
  "BaseUrls r =
     (if r = ''us'' then Some ''https://share2.dexcom.com''
      else if r = ''ous'' then Some ''https://shareous1.dexcom.com''
      else if r = ''jp'' then Some ''https://shareous1.dexcom.com''
      else None)"

definition DexcomClient :: "string \<Rightarrow> string \<Rightarrow> string \<Rightarrow> client" where
  "DexcomClient u p r =
     \<lparr> username = u,
       password = p,
       region = toLowerCase r,
       baseUrl = (case BaseUrls (toLowerCase r) of
                    Some url \<Rightarrow> url
                  | None \<Rightarrow> ''https://shareous1.dexcom.com''),
       applicationId = ''d89443d2-327c-4a6f-89e5-496bbb0317db'',
       sessionId = None,
       accountId = None \<rparr>"

definition zeroUuid :: string where
  "zeroUuid = ''00000000-0000-0000-0000-000000000000''"

text \<open>
  \<open>authenticate\<close>.  Errors are their messages.  The first block runs only when
  \<open>accountId\<close> is falsy; the login always runs; the \<open>catch\<close> wraps every error.
\<close>

definition authenticate_account :: "client \<Rightarrow> world \<Rightarrow> (string + unit) \<times> client \<times> world" where
  "authenticate_account c w =
     (if falsy (accountId c) then
        (case makeRequest
                (AuthenticatePublisherAccount (baseUrl c) (username c) (password c)
                   (applicationId c)) w of
           (Rejected e, w1) \<Rightarrow> (Inl e, c, w1)
         | (Reply st txt j, w1) \<Rightarrow>
             if \<not> ok st then
               (Inl (''Account authentication failed: '' @ string_of_nat st), c, w1)
             else
               let c1 = c\<lparr>accountId := Some (strip_quotes txt)\<rparr> in
               if accountId c1 = Some zeroUuid then (Inl ''Invalid credentials'', c1, w1)
               else (Inr (), c1, w1))
      else (Inr (), c, w))"

definition authenticate_login :: "client \<Rightarrow> world \<Rightarrow> (string + string) \<times> client \<times> world" where
  "authenticate_login c w =
     (case makeRequest
             (LoginPublisherAccountById (baseUrl c) (accountId c) (password c)
                (applicationId c)) w of
        (Rejected e, w1) \<Rightarrow> (Inl e, c, w1)
      | (Reply st txt j, w1) \<Rightarrow>
          if \<not> ok st then
            (Inl (''Session login failed: '' @ string_of_nat st), c, w1)
          else
            let c1 = c\<lparr>sessionId := Some (strip_quotes txt)\<rparr> in
            if sessionId c1 = Some zeroUuid then (Inl ''Login failed'', c1, w1)
            else (Inr (strip_quotes txt), c1, w1))"

definition authenticate :: "client \<Rightarrow> world \<Rightarrow> (string + string) \<times> client \<times> world" where
  "authenticate c w =
     (case authenticate_account c w of
        (Inl e, c1, w1) \<Rightarrow> (Inl (''Authentication error: '' @ e), c1, w1)
      | (Inr u, c1, w1) \<Rightarrow>
          (case authenticate_login c1 w1 of
             (Inl e, c2, w2) \<Rightarrow> (Inl (''Authentication error: '' @ e), c2, w2)
           | (Inr sid, c2, w2) \<Rightarrow> (Inr sid, c2, w2)))"


text \<open>
  The expiry test of the two \<open>catch\<close> blocks, on the message of the caught error.
\<close>

definition isSessionErrorMessage :: "string \<Rightarrow> bool" where
  "isSessionErrorMessage msg =
     (str_includes msg ''SessionIdNotFound'' \<or>
      str_includes msg ''Session not active'' \<or>
      str_includes msg ''timed out'')"

text \<open>
  How one activation of \<open>readGlucoseValues\<close> or \<open>writeGlucoseValues\<close> ends: it
  returns a value, it throws, or it returns its own recursive call
  (\<open>return this.readGlucoseValues(minutes, maxCount)\<close>, a tail call that no
  \<open>catch\<close> of the caller sees, since the promise is returned and not awaited).
\<close>

datatype 'a step = Return 'a | Throw string | Retry

text \<open>The guard in front of both operations: \<open>if (!this.sessionId) await this.authenticate()\<close>.\<close>

definition ensureSession :: "client \<Rightarrow> world \<Rightarrow> (string + unit) \<times> client \<times> world" where
  "ensureSession c w =
     (if falsy (sessionId c) then
        (case authenticate c w of
           (Inl e, c1, w1) \<Rightarrow> (Inl e, c1, w1)
         | (Inr sid, c1, w1) \<Rightarrow> (Inr (), c1, w1))
      else (Inr (), c, w))"

text \<open>
  The recovery both operations share:
  \<open>this.sessionId = null; this.accountId = null; await this.authenticate(); return <self>\<close>.
  A failure of the authentication is thrown at the place of the \<open>await\<close>.
\<close>

definition reauthenticate :: "client \<Rightarrow> world \<Rightarrow> 'a step \<times> client \<times> world" where
  "reauthenticate c w =
     (case authenticate (c\<lparr>sessionId := None, accountId := None\<rparr>) w of
        (Inl e, c1, w1) \<Rightarrow> (Throw e, c1, w1)
      | (Inr sid, c1, w1) \<Rightarrow> (Retry, c1, w1))"

text \<open>The \<open>catch\<close> block of both operations; its own \<open>await\<close> is outside any \<open>try\<close>.\<close>

definition catchSessionError :: "string \<Rightarrow> client \<Rightarrow> world \<Rightarrow> 'a step \<times> client \<times> world" where
  "catchSessionError e c w =
     (if isSessionErrorMessage e then reauthenticate c w else (Throw e, c, w))"

text \<open>The \<open>try\<close> block of \<open>readGlucoseValues\<close>.\<close>

definition readGlucoseValues_try ::
  "client \<Rightarrow> int \<Rightarrow> int \<Rightarrow> world \<Rightarrow> reading list step \<times> client \<times> world" where
  "readGlucoseValues_try c minutes maxCount w =
     (case makeRequest
             (ReadPublisherLatestGlucoseValues (baseUrl c) (sessionId c) minutes maxCount) w of
        (Rejected e, w1) \<Rightarrow> (Throw e, c, w1)
      | (Reply st txt j, w1) \<Rightarrow>
          if st = 500 then
            let errorMessage = messageOr j ''Unknown'';
                isSessionError =
                  (jsonCode j = Some ''SessionIdNotFound'' \<or>
                   str_includes errorMessage ''Session not active'' \<or>
                   str_includes errorMessage ''timed out'')
            in if isSessionError then reauthenticate c w1
               else (Throw (''Server error: '' @ errorMessage), c, w1)
          else if \<not> ok st then
            (Throw (''Failed to get readings: '' @ string_of_nat st), c, w1)
          else
            (case j of
               JArr readings \<Rightarrow> (Return readings, c, w1)
             | _ \<Rightarrow> (Return [], c, w1)))"

text \<open>One activation of \<open>readGlucoseValues\<close>: guard, \<open>try\<close>, \<open>catch\<close>.\<close>

definition readGlucoseValues_body ::
  "client \<Rightarrow> int \<Rightarrow> int \<Rightarrow> world \<Rightarrow> reading list step \<times> client \<times> world" where
  "readGlucoseValues_body c minutes maxCount w =
     (case ensureSession c w of
        (Inl e, c1, w1) \<Rightarrow> (Throw e, c1, w1)
      | (Inr u, c1, w1) \<Rightarrow>
          (case readGlucoseValues_try c1 minutes maxCount w1 of
             (Throw e, c2, w2) \<Rightarrow> catchSessionError e c2 w2
           | (Return readings, c2, w2) \<Rightarrow> (Return readings, c2, w2)
           | (Retry, c2, w2) \<Rightarrow> (Retry, c2, w2)))"

text \<open>The \<open>try\<close> block of \<open>writeGlucoseValues\<close>.\<close>

definition writeGlucoseValues_try ::
  "client \<Rightarrow> string \<Rightarrow> egv list \<Rightarrow> world \<Rightarrow> bool step \<times> client \<times> world" where
  "writeGlucoseValues_try c serialNumber egvs w =
     (case makeRequest
             (PostReceiverEgvRecords (baseUrl c) (sessionId c) serialNumber egvs
                (- tzOffset w)) w of
        (Rejected e, w1) \<Rightarrow> (Throw e, c, w1)
      | (Reply st txt j, w1) \<Rightarrow>
          if st = 500 then
            let errorMessage = messageOr j txt;
                isSessionError =
                  (jsonCode j = Some ''SessionIdNotFound'' \<or>
                   str_includes errorMessage ''Session not active'' \<or>
                   str_includes errorMessage ''timed out'')
            in if isSessionError then reauthenticate c w1
               else (Throw (''Server error: '' @ errorMessage), c, w1)
          else if \<not> ok st then
            (Throw (''Failed to write readings: '' @ string_of_nat st @ '' - '' @ txt), c, w1)
          else (Return True, c, w1))"

definition writeGlucoseValues_body ::
  "client \<Rightarrow> string \<Rightarrow> egv list \<Rightarrow> world \<Rightarrow> bool step \<times> client \<times> world" where
  "writeGlucoseValues_body c serialNumber egvs w =
     (case ensureSession c w of
        (Inl e, c1, w1) \<Rightarrow> (Throw e, c1, w1)
      | (Inr u, c1, w1) \<Rightarrow>
          (case writeGlucoseValues_try c1 serialNumber egvs w1 of
             (Throw e, c2, w2) \<Rightarrow> catchSessionError e c2 w2
           | (Return b, c2, w2) \<Rightarrow> (Return b, c2, w2)
           | (Retry, c2, w2) \<Rightarrow> (Retry, c2, w2)))"


subsection \<open>Every retry has used up a reply\<close>

lemma makeRequest_cases:
  assumes "makeRequest req w = (r, w1)"
  shows "(replies w = [] \<and> r = Rejected ''connect ECONNREFUSED'' \<and> replies w1 = []) \<or>
         replies w = r # replies w1"
  using assms by (auto simp: makeRequest_def split: list.splits)

lemma makeRequest_length:
  "makeRequest req w = (r, w1) \<Longrightarrow> length (replies w1) \<le> length (replies w)"
  by (auto simp: makeRequest_def split: list.splits)

lemma authenticate_account_length:
  "authenticate_account c w = (r, c1, w1) \<Longrightarrow> length (replies w1) \<le> length (replies w)"
  by (auto simp: authenticate_account_def Let_def
           split: if_splits prod.splits reply.splits dest: makeRequest_length)

lemma authenticate_login_length:
  "authenticate_login c w = (r, c1, w1) \<Longrightarrow> length (replies w1) \<le> length (replies w)"
  by (auto simp: authenticate_login_def Let_def
           split: if_splits prod.splits reply.splits dest: makeRequest_length)

lemma authenticate_length:
  "authenticate c w = (r, c1, w1) \<Longrightarrow> length (replies w1) \<le> length (replies w)"
  by (fastforce simp: authenticate_def split: prod.splits sum.splits
        dest: authenticate_account_length authenticate_login_length)

lemma ensureSession_length:
  "ensureSession c w = (r, c1, w1) \<Longrightarrow> length (replies w1) \<le> length (replies w)"
  by (auto simp: ensureSession_def split: if_splits prod.splits sum.splits
        dest: authenticate_length)

lemma reauthenticate_length:
  "reauthenticate c w = (r, c1, w1) \<Longrightarrow> length (replies w1) \<le> length (replies w)"
  by (auto simp: reauthenticate_def split: prod.splits sum.splits dest: authenticate_length)

lemma refused_not_session_error: "\<not> isSessionErrorMessage ''connect ECONNREFUSED''"
  by (simp add: isSessionErrorMessage_def)

lemma catchSessionError_length:
  "catchSessionError e c w = (r, c1, w1) \<Longrightarrow> length (replies w1) \<le> length (replies w)"
  by (auto simp: catchSessionError_def split: if_splits dest: reauthenticate_length)


lemma readGlucoseValues_try_length:
  assumes "readGlucoseValues_try c minutes maxCount w = (r, c1, w1)"
  shows "length (replies w1) < length (replies w) \<or>
         (r = Throw ''connect ECONNREFUSED'' \<and> length (replies w1) \<le> length (replies w))"
proof -
  obtain rep w0 where mk:
    "makeRequest (ReadPublisherLatestGlucoseValues (baseUrl c) (sessionId c) minutes maxCount) w
       = (rep, w0)"
    by (cases "makeRequest (ReadPublisherLatestGlucoseValues (baseUrl c) (sessionId c)
                  minutes maxCount) w") auto
  from makeRequest_cases [OF mk] show ?thesis
  proof
    assume "replies w = [] \<and> rep = Rejected ''connect ECONNREFUSED'' \<and> replies w0 = []"
    with assms mk show ?thesis by (simp add: readGlucoseValues_try_def)
  next
    assume "replies w = rep # replies w0"
    then have lt: "length (replies w0) < length (replies w)" by simp
    from assms mk have "length (replies w1) \<le> length (replies w0)"
      by (auto simp: readGlucoseValues_try_def Let_def
               split: reply.splits if_splits json.splits dest: reauthenticate_length)
    with lt show ?thesis by simp
  qed
qed

lemma writeGlucoseValues_try_length:
  assumes "writeGlucoseValues_try c sn egvs w = (r, c1, w1)"
  shows "length (replies w1) < length (replies w) \<or>
         (r = Throw ''connect ECONNREFUSED'' \<and> length (replies w1) \<le> length (replies w))"
proof -
  obtain rep w0 where mk:
    "makeRequest (PostReceiverEgvRecords (baseUrl c) (sessionId c) sn egvs (- tzOffset w)) w
       = (rep, w0)"
    by (cases "makeRequest (PostReceiverEgvRecords (baseUrl c) (sessionId c) sn egvs
                  (- tzOffset w)) w") auto
  from makeRequest_cases [OF mk] show ?thesis
  proof
    assume "replies w = [] \<and> rep = Rejected ''connect ECONNREFUSED'' \<and> replies w0 = []"
    with assms mk show ?thesis by (simp add: writeGlucoseValues_try_def)
  next
    assume "replies w = rep # replies w0"
    then have lt: "length (replies w0) < length (replies w)" by simp
    from assms mk have "length (replies w1) \<le> length (replies w0)"
      by (auto simp: writeGlucoseValues_try_def Let_def
               split: reply.splits if_splits dest: reauthenticate_length)
    with lt show ?thesis by simp
  qed
qed

lemma catchSessionError_Retry:
  "catchSessionError e c w = (Retry, c1, w1) \<Longrightarrow> isSessionErrorMessage e"
  by (auto simp: catchSessionError_def split: if_splits)

lemma readGlucoseValues_body_Retry:
  assumes "readGlucoseValues_body c minutes maxCount w = (Retry, c', w')"
  shows "length (replies w') < length (replies w)"
proof -
  from assms obtain u c1 w1 where es: "ensureSession c w = (Inr u, c1, w1)"
    by (auto simp: readGlucoseValues_body_def split: prod.splits sum.splits)
  obtain r c2 w2 where tr: "readGlucoseValues_try c1 minutes maxCount w1 = (r, c2, w2)"
    by (cases "readGlucoseValues_try c1 minutes maxCount w1") auto
  have l1: "length (replies w1) \<le> length (replies w)"
    using es by (rule ensureSession_length)
  show ?thesis
  proof (cases r)
    case (Return x)
    with assms es tr show ?thesis by (simp add: readGlucoseValues_body_def)
  next
    case Retry
    with assms es tr have "w' = w2" by (simp add: readGlucoseValues_body_def)
    with readGlucoseValues_try_length [OF tr] Retry l1 show ?thesis by auto
  next
    case (Throw e)
    with assms es tr have ca:
      "catchSessionError e c2 w2 = (Retry :: reading list step, c', w')"
      by (simp add: readGlucoseValues_body_def)
    then have se: "isSessionErrorMessage e" by (rule catchSessionError_Retry)
    from readGlucoseValues_try_length [OF tr] Throw se refused_not_session_error
    have "length (replies w2) < length (replies w1)" by auto
    with catchSessionError_length [OF ca] l1 show ?thesis by simp
  qed
qed

lemma writeGlucoseValues_body_Retry:
  assumes "writeGlucoseValues_body c sn egvs w = (Retry, c', w')"
  shows "length (replies w') < length (replies w)"
proof -
  from assms obtain u c1 w1 where es: "ensureSession c w = (Inr u, c1, w1)"
    by (auto simp: writeGlucoseValues_body_def split: prod.splits sum.splits)
  obtain r c2 w2 where tr: "writeGlucoseValues_try c1 sn egvs w1 = (r, c2, w2)"
    by (cases "writeGlucoseValues_try c1 sn egvs w1") auto
  have l1: "length (replies w1) \<le> length (replies w)"
    using es by (rule ensureSession_length)
  show ?thesis
  proof (cases r)
    case (Return x)
    with assms es tr show ?thesis by (simp add: writeGlucoseValues_body_def)
  next
    case Retry
    with assms es tr have "w' = w2" by (simp add: writeGlucoseValues_body_def)
    with writeGlucoseValues_try_length [OF tr] Retry l1 show ?thesis by auto
  next
    case (Throw e)
    with assms es tr have ca: "catchSessionError e c2 w2 = (Retry :: bool step, c', w')"
      by (simp add: writeGlucoseValues_body_def)
    then have se: "isSessionErrorMessage e" by (rule catchSessionError_Retry)
    from writeGlucoseValues_try_length [OF tr] Throw se refused_not_session_error
    have "length (replies w2) < length (replies w1)" by auto
    with catchSessionError_length [OF ca] l1 show ?thesis by simp
  qed
qed


subsection \<open>The two operations\<close>

text \<open>
  \<open>readGlucoseValues\<close> and \<open>writeGlucoseValues\<close>: the activation runs, and where it
  ends in its own recursive call the operation starts again with the client and the
  world as they are then.  \<open>Inl\<close> is the message of the error the promise rejects with.
\<close>

function readGlucoseValues ::
  "client \<Rightarrow> int \<Rightarrow> int \<Rightarrow> world \<Rightarrow> (string + reading list) \<times> client \<times> world" where
  "readGlucoseValues c minutes maxCount w =
     (case readGlucoseValues_body c minutes maxCount w of
        (Return readings, c', w') \<Rightarrow> (Inr readings, c', w')
      | (Throw e, c', w') \<Rightarrow> (Inl e, c', w')
      | (Retry, c', w') \<Rightarrow> readGlucoseValues c' minutes maxCount w')"
  by pat_completeness auto
termination
  by (relation "measure (\<lambda>(c, minutes, maxCount, w). length (replies w))")
     (auto dest: readGlucoseValues_body_Retry [OF sym])

function writeGlucoseValues ::
  "client \<Rightarrow> string \<Rightarrow> egv list \<Rightarrow> world \<Rightarrow> (string + bool) \<times> client \<times> world" where
  "writeGlucoseValues c serialNumber egvs w =
     (case writeGlucoseValues_body c serialNumber egvs w of
        (Return b, c', w') \<Rightarrow> (Inr b, c', w')
      | (Throw e, c', w') \<Rightarrow> (Inl e, c', w')
      | (Retry, c', w') \<Rightarrow> writeGlucoseValues c' serialNumber egvs w')"
  by pat_completeness auto
termination
  by (relation "measure (\<lambda>(c, serialNumber, egvs, w). length (replies w))")
     (auto dest: writeGlucoseValues_body_Retry [OF sym])

declare readGlucoseValues.simps [simp del] writeGlucoseValues.simps [simp del]



section \<open>Dex2ComSyncer\<close>

text \<open>
  The configuration the constructor receives.  A numeric field that is missing
  behaves as \<open>0\<close> does (\<open>undefined * 3\<close> is \<open>NaN\<close>, falsy like \<open>0\<close>).
\<close>

record account_config =
  cfg_username :: string
  cfg_password :: string
  cfg_region :: string

record config =
  source :: account_config
  dest :: account_config
  syncIntervalMinutes :: int
  maxReadingsPerSync :: int
  cfg_serialNumber :: "string option"

text \<open>
  \<open>syncedTimestamps\<close> is a JavaScript \<open>Set\<close> of numbers: its elements in insertion
  order, each once.
\<close>

record syncer =
  config :: config
  sourceClient :: client
  destClient :: client
  lastSyncTime :: "int option"
  syncedTimestamps :: "int list"
  serialNumber :: string

definition Dex2ComSyncer :: "config \<Rightarrow> syncer" where
  "Dex2ComSyncer cfg =
     \<lparr> config = cfg,
       sourceClient = DexcomClient (cfg_username (source cfg)) (cfg_password (source cfg))
                        (cfg_region (source cfg)),
       destClient = DexcomClient (cfg_username (dest cfg)) (cfg_password (dest cfg))
                      (cfg_region (dest cfg)),
       lastSyncTime = None,
       syncedTimestamps = [],
       serialNumber = (if falsy (cfg_serialNumber cfg) then ''DEX2COM0001''
                       else the (cfg_serialNumber cfg)) \<rparr>"

text \<open>\<open>Set.prototype.has\<close> and \<open>Set.prototype.add\<close>.\<close>

definition set_has :: "int list \<Rightarrow> int \<Rightarrow> bool" where
  "set_has xs ts = (ts \<in> set xs)"

definition set_add :: "int list \<Rightarrow> int \<Rightarrow> int list" where
  "set_add xs ts = (if ts \<in> set xs then xs else xs @ [ts])"

text \<open>
  \<open>extractTimestamp\<close>: \<open>dexcomDate.match(/\d+/)\<close> is the leftmost longest run of
  digits, or \<open>null\<close> when there is no digit.
\<close>

definition extractTimestamp :: "string \<Rightarrow> int" where
  "extractTimestamp dexcomDate =
     (let match = takeWhile isDigit (dropWhile (\<lambda>ch. \<not> isDigit ch) dexcomDate)
      in if match = [] then 0 else parseInt match)"

record sync_result =
  success :: bool
  readCount :: nat
  writeCount :: nat
  skippedCount :: nat
  errors :: "string list"

text \<open>\<open>cleanupOldTimestamps\<close>: a new set of the timestamps after the cutoff.\<close>

definition cleanupOldTimestamps :: "syncer \<Rightarrow> world \<Rightarrow> syncer" where
  "cleanupOldTimestamps s w =
     (let cutoff = clock w - (24 * 60 * 60 * 1000)
      in s\<lparr>syncedTimestamps := filter (\<lambda>ts. ts > cutoff) (syncedTimestamps s)\<rparr>)"

text \<open>The projection of a reading to the fields that are uploaded.\<close>

definition toEgv :: "reading \<Rightarrow> egv" where
  "toEgv r = \<lparr> Trend = Trend r, ST = ST r, DT = DT r, Value = Value r \<rparr>"

text \<open>
  The read window \<open>syncIntervalMinutes * 3 || 15\<close> and the bound
  \<open>maxReadingsPerSync || 12\<close> of a cycle.
\<close>

definition readWindow :: "syncer \<Rightarrow> int" where
  "readWindow s =
     (if syncIntervalMinutes (config s) * 3 = 0 then 15
      else syncIntervalMinutes (config s) * 3)"

definition readMaxCount :: "syncer \<Rightarrow> int" where
  "readMaxCount s =
     (if maxReadingsPerSync (config s) = 0 then 12 else maxReadingsPerSync (config s))"

text \<open>
  \<open>sync\<close>: one cycle.  An error thrown by the read or by the write is caught at the
  end of the cycle and its message pushed on \<open>errors\<close>; \<open>success\<close> is then still
  \<open>false\<close> and the counts are what they were when the error was thrown.
\<close>

definition sync :: "syncer \<Rightarrow> world \<Rightarrow> sync_result \<times> syncer \<times> world" where
  "sync s w =
     (let result = \<lparr> success = False, readCount = 0, writeCount = 0, skippedCount = 0,
                     errors = [] \<rparr>;
          minutes = readWindow s;
          maxCount = readMaxCount s
      in case readGlucoseValues (sourceClient s) minutes maxCount w of
           (Inl e, src, w1) \<Rightarrow> (result\<lparr>errors := [e]\<rparr>, s\<lparr>sourceClient := src\<rparr>, w1)
         | (Inr readings, src, w1) \<Rightarrow>
             let s1 = s\<lparr>sourceClient := src\<rparr>;
                 result1 = result\<lparr>readCount := length readings\<rparr>
             in if length readings = 0 then (result1\<lparr>success := True\<rparr>, s1, w1)
                else
                  let newReadings =
                        filter (\<lambda>reading. \<not> set_has (syncedTimestamps s1)
                                               (extractTimestamp (WT reading))) readings;
                      result2 = result1\<lparr>skippedCount :=
                                          length readings - length newReadings\<rparr>
                  in if length newReadings = 0 then (result2\<lparr>success := True\<rparr>, s1, w1)
                     else
                       let egvs = map toEgv newReadings
                       in case writeGlucoseValues (destClient s1) (serialNumber s1) egvs w1 of
                            (Inl e, dst, w2) \<Rightarrow>
                              (result2\<lparr>errors := [e]\<rparr>, s1\<lparr>destClient := dst\<rparr>, w2)
                          | (Inr b, dst, w2) \<Rightarrow>
                              let result3 = result2\<lparr>writeCount := length egvs\<rparr>;
                                  s2 = s1\<lparr>destClient := dst,
                                          syncedTimestamps :=
                                            foldl (\<lambda>xs reading.
                                                     set_add xs (extractTimestamp (WT reading)))
                                              (syncedTimestamps s1) newReadings\<rparr>;
                                  s3 = cleanupOldTimestamps s2 w2
                              in (result3\<lparr>success := True\<rparr>,
                                  s3\<lparr>lastSyncTime := Some (clock w2)\<rparr>, w2))"



subsection \<open>Example data\<close>

text \<open>
  A configuration, a reading with a given \<open>WT\<close>, and a client that holds a session as
  after a successful \<open>authenticate\<close>; used where a property is run on concrete input.
\<close>

definition example_config :: config where
  "example_config =
     \<lparr> source = \<lparr> cfg_username = ''alice'', cfg_password = ''pw1'', cfg_region = ''us'' \<rparr>,
       dest = \<lparr> cfg_username = ''bob'', cfg_password = ''pw2'', cfg_region = ''ous'' \<rparr>,
       syncIntervalMinutes = 5, maxReadingsPerSync = 12, cfg_serialNumber = None \<rparr>"

definition example_reading :: "string \<Rightarrow> reading" where
  "example_reading wt = \<lparr> Trend = ''Flat'', ST = wt, DT = wt, Value = 100, WT = wt \<rparr>"

definition logged_in :: "client \<Rightarrow> string \<Rightarrow> string \<Rightarrow> client" where
  "logged_in c aid sid = c\<lparr>sessionId := Some sid, accountId := Some aid\<rparr>"

definition empty_source_world :: world where
  "empty_source_world =
     \<lparr> replies = [Reply 200 ''A1'' JOther, Reply 200 ''S1'' JOther,
                  Reply 200 ''[]'' (JArr [])],
       requests = [], clock = 1700000000000, tzOffset = 0 \<rparr>"


section \<open>What an operation does to the world\<close>

text \<open>
  \<open>posted q\<close> is the batch a request uploads, if it is an upload.  \<open>evolves P w w'\<close>:
  from \<open>w\<close> to \<open>w'\<close> the clock and the time zone are the same and the requests
  sent in between all satisfy \<open>P\<close>.
\<close>

fun posted :: "request \<Rightarrow> egv list option" where
  "posted (PostReceiverEgvRecords url sid sn egvs ta) = Some egvs"
| "posted _ = None"

definition evolves :: "(request \<Rightarrow> bool) \<Rightarrow> world \<Rightarrow> world \<Rightarrow> bool" where
  "evolves P w w' =
     (clock w' = clock w \<and> tzOffset w' = tzOffset w \<and>
      (\<exists>reqs. requests w' = requests w @ reqs \<and> (\<forall>q \<in> set reqs. P q)))"

lemma evolves_refl: "evolves P w w"
  by (simp add: evolves_def)

lemma evolves_trans: "evolves P w w1 \<Longrightarrow> evolves P w1 w2 \<Longrightarrow> evolves P w w2"
  by (auto simp: evolves_def)

lemma evolves_weaken: "evolves P w w' \<Longrightarrow> (\<And>q. P q \<Longrightarrow> Q q) \<Longrightarrow> evolves Q w w'"
  by (auto simp: evolves_def)

lemma makeRequest_evolves: "makeRequest req w = (r, w1) \<Longrightarrow> P req \<Longrightarrow> evolves P w w1"
  by (auto simp: makeRequest_def evolves_def split: list.splits)

lemma authenticate_account_evolves:
  "authenticate_account c w = (r, c1, w1) \<Longrightarrow> evolves (\<lambda>q. posted q = None) w w1"
  by (auto simp: authenticate_account_def Let_def evolves_refl
           split: if_splits prod.splits reply.splits
           intro!: makeRequest_evolves)

lemma authenticate_login_evolves:
  "authenticate_login c w = (r, c1, w1) \<Longrightarrow> evolves (\<lambda>q. posted q = None) w w1"
  by (auto simp: authenticate_login_def Let_def evolves_refl
           split: if_splits prod.splits reply.splits
           intro!: makeRequest_evolves)

lemma authenticate_evolves:
  "authenticate c w = (r, c1, w1) \<Longrightarrow> evolves (\<lambda>q. posted q = None) w w1"
  by (auto simp: authenticate_def split: prod.splits sum.splits
        dest!: authenticate_account_evolves authenticate_login_evolves
        intro: evolves_trans)

lemma ensureSession_evolves:
  "ensureSession c w = (r, c1, w1) \<Longrightarrow> evolves (\<lambda>q. posted q = None) w w1"
  by (auto simp: ensureSession_def evolves_refl split: if_splits prod.splits sum.splits
        dest: authenticate_evolves)

lemma reauthenticate_evolves:
  "reauthenticate c w = (r, c1, w1) \<Longrightarrow> evolves (\<lambda>q. posted q = None) w w1"
  by (auto simp: reauthenticate_def split: prod.splits sum.splits dest: authenticate_evolves)

lemma catchSessionError_evolves:
  "catchSessionError e c w = (r, c1, w1) \<Longrightarrow> evolves (\<lambda>q. posted q = None) w w1"
  by (auto simp: catchSessionError_def evolves_refl split: if_splits
        dest: reauthenticate_evolves)

lemma readGlucoseValues_try_evolves:
  assumes "readGlucoseValues_try c minutes maxCount w = (r, c1, w1)"
  shows "evolves (\<lambda>q. posted q = None) w w1"
proof -
  obtain rep w0 where mk:
    "makeRequest (ReadPublisherLatestGlucoseValues (baseUrl c) (sessionId c) minutes maxCount) w
       = (rep, w0)"
    by (cases "makeRequest (ReadPublisherLatestGlucoseValues (baseUrl c) (sessionId c)
                  minutes maxCount) w") auto
  then have e0: "evolves (\<lambda>q. posted q = None) w w0"
    by (rule makeRequest_evolves) simp
  from assms mk have "evolves (\<lambda>q. posted q = None) w0 w1"
    by (auto simp: readGlucoseValues_try_def Let_def evolves_refl
             split: reply.splits if_splits json.splits dest: reauthenticate_evolves)
  with e0 show ?thesis by (rule evolves_trans)
qed

lemma readGlucoseValues_body_evolves:
  assumes "readGlucoseValues_body c minutes maxCount w = (r, c', w')"
  shows "evolves (\<lambda>q. posted q = None) w w'"
  using assms
  by (auto simp: readGlucoseValues_body_def split: prod.splits sum.splits step.splits
        dest!: ensureSession_evolves readGlucoseValues_try_evolves catchSessionError_evolves
        intro: evolves_trans)

lemma readGlucoseValues_evolves:
  "readGlucoseValues c minutes maxCount w = (r, c', w') \<Longrightarrow>
     evolves (\<lambda>q. posted q = None) w w'"
proof (induction c minutes maxCount w rule: readGlucoseValues.induct)
  case (1 c minutes maxCount w)
  obtain st c1 w1 where b: "readGlucoseValues_body c minutes maxCount w = (st, c1, w1)"
    by (cases "readGlucoseValues_body c minutes maxCount w") auto
  have e1: "evolves (\<lambda>q. posted q = None) w w1"
    using b by (rule readGlucoseValues_body_evolves)
  show ?case
  proof (cases st)
    case (Return x)
    with b "1.prems" have "w' = w1" by (simp add: readGlucoseValues.simps)
    with e1 show ?thesis by simp
  next
    case (Throw e)
    with b "1.prems" have "w' = w1" by (simp add: readGlucoseValues.simps)
    with e1 show ?thesis by simp
  next
    case Retry
    with b "1.prems" have "readGlucoseValues c1 minutes maxCount w1 = (r, c', w')"
      by (simp add: readGlucoseValues.simps)
    with "1.IH" [OF b [symmetric]] Retry have "evolves (\<lambda>q. posted q = None) w1 w'"
      by simp
    with e1 show ?thesis by (rule evolves_trans)
  qed
qed

lemma writeGlucoseValues_try_evolves:
  assumes "writeGlucoseValues_try c sn egvs w = (r, c1, w1)"
  shows "evolves (\<lambda>q. posted q = None \<or> posted q = Some egvs) w w1"
proof -
  obtain rep w0 where mk:
    "makeRequest (PostReceiverEgvRecords (baseUrl c) (sessionId c) sn egvs (- tzOffset w)) w
       = (rep, w0)"
    by (cases "makeRequest (PostReceiverEgvRecords (baseUrl c) (sessionId c) sn egvs
                  (- tzOffset w)) w") auto
  then have e0: "evolves (\<lambda>q. posted q = None \<or> posted q = Some egvs) w w0"
    by (rule makeRequest_evolves) simp
  from assms mk have "evolves (\<lambda>q. posted q = None) w0 w1"
    by (auto simp: writeGlucoseValues_try_def Let_def evolves_refl
             split: reply.splits if_splits dest: reauthenticate_evolves)
  then have "evolves (\<lambda>q. posted q = None \<or> posted q = Some egvs) w0 w1"
    by (rule evolves_weaken) simp
  with e0 show ?thesis by (rule evolves_trans)
qed

lemma writeGlucoseValues_body_evolves:
  assumes "writeGlucoseValues_body c sn egvs w = (r, c', w')"
  shows "evolves (\<lambda>q. posted q = None \<or> posted q = Some egvs) w w'"
proof -
  let ?P = "\<lambda>q. posted q = None \<or> posted q = Some egvs"
  have weak: "\<And>a b. evolves (\<lambda>q. posted q = None) a b \<Longrightarrow> evolves ?P a b"
    by (erule evolves_weaken) simp
  from assms show ?thesis
    by (auto simp: writeGlucoseValues_body_def split: prod.splits sum.splits step.splits
          dest!: ensureSession_evolves writeGlucoseValues_try_evolves
                 catchSessionError_evolves)
       (blast intro: evolves_trans weak)+
qed

lemma writeGlucoseValues_evolves:
  "writeGlucoseValues c sn egvs w = (r, c', w') \<Longrightarrow>
     evolves (\<lambda>q. posted q = None \<or> posted q = Some egvs) w w'"
proof (induction c sn egvs w rule: writeGlucoseValues.induct)
  case (1 c sn egvs w)
  let ?P = "\<lambda>q. posted q = None \<or> posted q = Some egvs"
  obtain st c1 w1 where b: "writeGlucoseValues_body c sn egvs w = (st, c1, w1)"
    by (cases "writeGlucoseValues_body c sn egvs w") auto
  have e1: "evolves ?P w w1"
    using b by (rule writeGlucoseValues_body_evolves)
  show ?case
  proof (cases st)
    case (Return x)
    with b "1.prems" have "w' = w1" by (simp add: writeGlucoseValues.simps)
    with e1 show ?thesis by simp
  next
    case (Throw e)
    with b "1.prems" have "w' = w1" by (simp add: writeGlucoseValues.simps)
    with e1 show ?thesis by simp
  next
    case Retry
    with b "1.prems" have "writeGlucoseValues c1 sn egvs w1 = (r, c', w')"
      by (simp add: writeGlucoseValues.simps)
    with "1.IH" [OF b [symmetric]] Retry have "evolves ?P w1 w'"
      by simp
    with e1 show ?thesis by (rule evolves_trans)
  qed
qed


section \<open>Properties of the client\<close>

subsection \<open>The all-zero account token\<close>

text \<open>
  Claim C6.  When the account is not cached and the account-authenticate request is
  answered with a success status and the all-zero UUID (quoted or not),
  \<open>authenticate\<close> throws the invalid-credentials error, wrapped by its \<open>catch\<close> as
  \<open>Authentication error: Invalid credentials\<close>; the only request sent is the
  account-authenticate request, so the login is not attempted and the rest of the
  script is untouched.
\<close>

theorem authenticate_sentinel_no_login:
  assumes "falsy (accountId c)"
    and "replies w = Reply st txt j # rest"
    and "ok st"
    and "strip_quotes txt = zeroUuid"
  shows "authenticate c w =
           (Inl ''Authentication error: Invalid credentials'',
            c\<lparr>accountId := Some zeroUuid\<rparr>,
            w\<lparr>replies := rest,
              requests := requests w @
                [AuthenticatePublisherAccount (baseUrl c) (username c) (password c)
                   (applicationId c)]\<rparr>)"
  using assms
  by (simp add: authenticate_def authenticate_account_def makeRequest_def)

theorem authenticate_sentinel_no_login_witness:
  "falsy (accountId (DexcomClient ''alice'' ''pw'' ''us'')) \<and>
   ok 200 \<and>
   strip_quotes (CHR 0x22 # zeroUuid @ [CHR 0x22]) = zeroUuid \<and>
   authenticate (DexcomClient ''alice'' ''pw'' ''us'')
     \<lparr> replies = [Reply 200 (CHR 0x22 # zeroUuid @ [CHR 0x22]) JOther,
                  Reply 200 ''S1'' JOther],
       requests = [], clock = 1700000000000, tzOffset = 0 \<rparr> =
     (Inl ''Authentication error: Invalid credentials'',
      (DexcomClient ''alice'' ''pw'' ''us'')\<lparr>accountId := Some zeroUuid\<rparr>,
      \<lparr> replies = [Reply 200 ''S1'' JOther],
        requests = [AuthenticatePublisherAccount ''https://share2.dexcom.com'' ''alice''
                      ''pw'' ''d89443d2-327c-4a6f-89e5-496bbb0317db''],
        clock = 1700000000000, tzOffset = 0 \<rparr>)"
proof -
  have h1: "falsy (accountId (DexcomClient ''alice'' ''pw'' ''us''))"
    by (simp add: DexcomClient_def falsy_def)
  have h2: "ok 200" by (simp add: ok_def)
  have h3: "strip_quotes (CHR 0x22 # zeroUuid @ [CHR 0x22]) = zeroUuid"
    by (simp add: strip_quotes_def zeroUuid_def)
  have h4: "replies \<lparr> replies = [Reply 200 (CHR 0x22 # zeroUuid @ [CHR 0x22]) JOther,
                                   Reply 200 ''S1'' JOther],
                       requests = [], clock = 1700000000000, tzOffset = 0 \<rparr>
            = Reply 200 (CHR 0x22 # zeroUuid @ [CHR 0x22]) JOther # [Reply 200 ''S1'' JOther]"
    by simp
  show ?thesis
    using h1 h2 h3 authenticate_sentinel_no_login [OF h1 h4 h2 h3]
    by (simp add: DexcomClient_def BaseUrls_def toLowerCase_def)
qed



section \<open>Properties of a sync cycle\<close>

subsection \<open>A source without readings\<close>

text \<open>
  Claim C9.  When the read from the source returns no reading, the cycle's result is
  exactly \<open>{success: true, readCount: 0, writeCount: 0, skippedCount: 0, errors: []}\<close>,
  the cycle ends in the world the read left, and none of the requests sent during the
  cycle is an upload to the destination.
\<close>

theorem sync_empty_source:
  assumes "readGlucoseValues (sourceClient s) (readWindow s) (readMaxCount s) w
             = (Inr [], src, w1)"
  shows "sync s w =
           (\<lparr> success = True, readCount = 0, writeCount = 0, skippedCount = 0,
              errors = [] \<rparr>,
            s\<lparr>sourceClient := src\<rparr>, w1) \<and>
         (\<exists>reqs. requests w1 = requests w @ reqs \<and> (\<forall>q \<in> set reqs. posted q = None))"
proof -
  from readGlucoseValues_evolves [OF assms]
  have "\<exists>reqs. requests w1 = requests w @ reqs \<and> (\<forall>q \<in> set reqs. posted q = None)"
    by (simp add: evolves_def)
  moreover from assms have "sync s w =
           (\<lparr> success = True, readCount = 0, writeCount = 0, skippedCount = 0,
              errors = [] \<rparr>,
            s\<lparr>sourceClient := src\<rparr>, w1)"
    by (simp add: sync_def)
  ultimately show ?thesis by simp
qed

theorem sync_empty_source_witness:
  "sync (Dex2ComSyncer example_config) empty_source_world =
     (\<lparr> success = True, readCount = 0, writeCount = 0, skippedCount = 0, errors = [] \<rparr>,
      (Dex2ComSyncer example_config)
        \<lparr>sourceClient :=
           logged_in (sourceClient (Dex2ComSyncer example_config)) ''A1'' ''S1''\<rparr>,
      empty_source_world\<lparr>replies := [],
        requests :=
          [AuthenticatePublisherAccount ''https://share2.dexcom.com'' ''alice'' ''pw1''
             ''d89443d2-327c-4a6f-89e5-496bbb0317db'',
           LoginPublisherAccountById ''https://share2.dexcom.com'' (Some ''A1'') ''pw1''
             ''d89443d2-327c-4a6f-89e5-496bbb0317db'',
           ReadPublisherLatestGlucoseValues ''https://share2.dexcom.com'' (Some ''S1'')
             15 12]\<rparr>)"
proof -
  have rd: "readGlucoseValues (sourceClient (Dex2ComSyncer example_config))
       (readWindow (Dex2ComSyncer example_config))
       (readMaxCount (Dex2ComSyncer example_config)) empty_source_world =
     (Inr [], logged_in (sourceClient (Dex2ComSyncer example_config)) ''A1'' ''S1'',
      empty_source_world\<lparr>replies := [],
        requests :=
          [AuthenticatePublisherAccount ''https://share2.dexcom.com'' ''alice'' ''pw1''
             ''d89443d2-327c-4a6f-89e5-496bbb0317db'',
           LoginPublisherAccountById ''https://share2.dexcom.com'' (Some ''A1'') ''pw1''
             ''d89443d2-327c-4a6f-89e5-496bbb0317db'',
           ReadPublisherLatestGlucoseValues ''https://share2.dexcom.com'' (Some ''S1'')
             15 12]\<rparr>)"
    by code_simp
  show ?thesis using sync_empty_source [OF rd] by simp
qed

subsection \<open>A failed upload\<close>

lemma str_includes_self: "str_includes m m"
  by (cases m) simp_all

lemma str_includes_append: "str_includes (p @ m) m"
  by (induction p) (simp_all add: str_includes_self)

lemma server_error_not_session:
  "\<not> isSessionErrorMessage m \<Longrightarrow> \<not> isSessionErrorMessage (''Server error: '' @ m)"
  by (simp add: isSessionErrorMessage_def)

lemma writeGlucoseValues_server_error:
  assumes "ensureSession c w = (Inr (), c1, w1)"
    and "replies w1 = Reply 500 txt j # rest"
    and "jsonCode j \<noteq> Some ''SessionIdNotFound''"
    and "\<not> isSessionErrorMessage (messageOr j txt)"
  shows "writeGlucoseValues c sn egvs w =
           (Inl (''Server error: '' @ messageOr j txt), c1,
            w1\<lparr>replies := rest,
               requests := requests w1 @
                 [PostReceiverEgvRecords (baseUrl c1) (sessionId c1) sn egvs (- tzOffset w1)]\<rparr>)"
proof -
  from assms(4) have m: "\<not> str_includes (messageOr j txt) ''Session not active''"
    "\<not> str_includes (messageOr j txt) ''timed out''"
    by (simp_all add: isSessionErrorMessage_def)
  have tr: "writeGlucoseValues_try c1 sn egvs w1 =
          (Throw (''Server error: '' @ messageOr j txt), c1,
            w1\<lparr>replies := rest,
               requests := requests w1 @
                 [PostReceiverEgvRecords (baseUrl c1) (sessionId c1) sn egvs (- tzOffset w1)]\<rparr>)"
    using assms(2,3) m
    by (simp add: writeGlucoseValues_try_def makeRequest_def Let_def)
  have "catchSessionError (''Server error: '' @ messageOr j txt) c1
            (w1\<lparr>replies := rest,
               requests := requests w1 @
                 [PostReceiverEgvRecords (baseUrl c1) (sessionId c1) sn egvs (- tzOffset w1)]\<rparr>) =
       (Throw (''Server error: '' @ messageOr j txt) :: bool step, c1, w1\<lparr>replies := rest,
               requests := requests w1 @
                 [PostReceiverEgvRecords (baseUrl c1) (sessionId c1) sn egvs (- tzOffset w1)]\<rparr>)"
    using server_error_not_session [OF assms(4)]
    by (simp only: catchSessionError_def if_False)
  with tr assms(1) have "writeGlucoseValues_body c sn egvs w = (Throw (''Server error: '' @ messageOr j txt), c1,
            w1\<lparr>replies := rest,
               requests := requests w1 @
                 [PostReceiverEgvRecords (baseUrl c1) (sessionId c1) sn egvs (- tzOffset w1)]\<rparr>)"
    by (simp add: writeGlucoseValues_body_def)
  then show ?thesis by (simp add: writeGlucoseValues.simps)
qed

lemma skipped_count:
  "length xs - length (filter (\<lambda>x. \<not> P x) xs) = length (filter P xs)"
  using sum_length_filter_compl [of P xs] by simp

text \<open>
  Claim C2.  In a cycle that has new readings and whose upload is answered with status
  500 that neither check of the client takes for a session expiry (the code is not
  \<open>SessionIdNotFound\<close> and the message has none of the expiry markers), the result
  has \<open>success = false\<close>, \<open>writeCount = 0\<close> and \<open>errors\<close> holding one entry,
  \<open>Server error: <message>\<close>, which contains the server's message; the set of synced
  timestamps is what it was before the cycle.
\<close>

theorem sync_write_failure_keeps_ledger:
  assumes rd: "readGlucoseValues (sourceClient s) (readWindow s) (readMaxCount s) w
                 = (Inr readings, src, w1)"
    and new: "\<exists>r \<in> set readings. \<not> set_has (syncedTimestamps s) (extractTimestamp (WT r))"
    and sess: "ensureSession (destClient s) w1 = (Inr (), dst, w2)"
    and reply: "replies w2 = Reply 500 txt j # rest"
    and code: "jsonCode j \<noteq> Some ''SessionIdNotFound''"
    and msg: "\<not> isSessionErrorMessage (messageOr j txt)"
  shows "sync s w =
           (\<lparr> success = False, readCount = length readings, writeCount = 0,
              skippedCount =
                length (filter (\<lambda>r. set_has (syncedTimestamps s) (extractTimestamp (WT r)))
                          readings),
              errors = [''Server error: '' @ messageOr j txt] \<rparr>,
            s\<lparr>sourceClient := src, destClient := dst\<rparr>,
            w2\<lparr>replies := rest,
               requests := requests w2 @
                 [PostReceiverEgvRecords (baseUrl dst) (sessionId dst) (serialNumber s)
                    (map toEgv
                       (filter (\<lambda>r. \<not> set_has (syncedTimestamps s)
                                          (extractTimestamp (WT r))) readings))
                    (- tzOffset w2)]\<rparr>) \<and>
         syncedTimestamps (fst (snd (sync s w))) = syncedTimestamps s \<and>
         (\<exists>e \<in> set (errors (fst (sync s w))). str_includes e (messageOr j txt))"
proof -
  let ?new = "filter (\<lambda>r. \<not> set_has (syncedTimestamps s) (extractTimestamp (WT r))) readings"
  from new have ne: "?new \<noteq> []" by (auto simp: filter_empty_conv)
  then have rne: "readings \<noteq> []" by auto
  note wr = writeGlucoseValues_server_error [OF sess reply code msg,
              of "serialNumber s" "map toEgv ?new"]
  have eq: "sync s w =
           (\<lparr> success = False, readCount = length readings, writeCount = 0,
              skippedCount =
                length (filter (\<lambda>r. set_has (syncedTimestamps s) (extractTimestamp (WT r)))
                          readings),
              errors = [''Server error: '' @ messageOr j txt] \<rparr>,
            s\<lparr>sourceClient := src, destClient := dst\<rparr>,
            w2\<lparr>replies := rest,
               requests := requests w2 @
                 [PostReceiverEgvRecords (baseUrl dst) (sessionId dst) (serialNumber s)
                    (map toEgv ?new) (- tzOffset w2)]\<rparr>)"
    using rd ne rne wr by (simp add: sync_def Let_def skipped_count)
  show ?thesis
    unfolding eq using str_includes_append [of "''Server error: ''" "messageOr j txt"]
    by simp
qed


text \<open>A cycle with one reading already synced, one new, and the upload failing.\<close>

definition write_failure_syncer :: syncer where
  "write_failure_syncer = (Dex2ComSyncer example_config)\<lparr>syncedTimestamps := [1699999700000]\<rparr>"

definition write_failure_world :: world where
  "write_failure_world =
     \<lparr> replies = [Reply 200 ''A1'' JOther, Reply 200 ''S1'' JOther,
                  Reply 200 [] (JArr [example_reading ''/Date(1700000000000)/'',
                                      example_reading ''/Date(1699999700000)/'']),
                  Reply 200 ''A2'' JOther, Reply 200 ''S2'' JOther,
                  Reply 500 [] (JObj None (Some ''Unexpected''))],
       requests = [], clock = 1700000100000, tzOffset = 0 \<rparr>"

theorem sync_write_failure_keeps_ledger_witness:
  "success (fst (sync write_failure_syncer write_failure_world)) = False \<and>
   readCount (fst (sync write_failure_syncer write_failure_world)) = 2 \<and>
   skippedCount (fst (sync write_failure_syncer write_failure_world)) = 1 \<and>
   writeCount (fst (sync write_failure_syncer write_failure_world)) = 0 \<and>
   errors (fst (sync write_failure_syncer write_failure_world)) = [''Server error: Unexpected''] \<and>
   syncedTimestamps (fst (snd (sync write_failure_syncer write_failure_world))) = [1699999700000]"
proof -
  let ?s = write_failure_syncer and ?w = write_failure_world
  let ?rd = "readGlucoseValues (sourceClient ?s) (readWindow ?s) (readMaxCount ?s) ?w"
  let ?es = "ensureSession (destClient ?s) (snd (snd ?rd))"
  have rd: "?rd = (Inr [example_reading ''/Date(1700000000000)/'',
                        example_reading ''/Date(1699999700000)/''], fst (snd ?rd), snd (snd ?rd))"
    by code_simp
  have new: "\<exists>r \<in> set [example_reading ''/Date(1700000000000)/'',
                        example_reading ''/Date(1699999700000)/''].
               \<not> set_has (syncedTimestamps ?s) (extractTimestamp (WT r))"
    by code_simp
  have sess: "?es = (Inr (), fst (snd ?es), snd (snd ?es))"
    by code_simp
  have reply: "replies (snd (snd ?es)) = Reply 500 [] (JObj None (Some ''Unexpected'')) # []"
    by code_simp
  have code: "jsonCode (JObj None (Some ''Unexpected'')) \<noteq> Some ''SessionIdNotFound''"
    by simp
  have msg: "\<not> isSessionErrorMessage (messageOr (JObj None (Some ''Unexpected'')) [])"
    by code_simp
  have l: "syncedTimestamps ?s = [1699999700000]"
    by (simp add: write_failure_syncer_def)
  have k: "extractTimestamp ''/Date(1700000000000)/'' = 1700000000000"
     "extractTimestamp ''/Date(1699999700000)/'' = 1699999700000"
    by code_simp+
  show ?thesis
    using sync_write_failure_keeps_ledger [OF rd new sess reply code msg]
    by (simp add: l k messageOr_def set_has_def example_reading_def)
qed

subsection \<open>Authentication and recovery from a session expiry\<close>

lemma authenticate_fresh:
  assumes "falsy (accountId c)"
    and "replies w = Reply sac tac jac # Reply slg tlg jlg # rest"
    and "ok sac" and "strip_quotes tac \<noteq> zeroUuid"
    and "ok slg" and "strip_quotes tlg \<noteq> zeroUuid"
  shows "authenticate c w =
           (Inr (strip_quotes tlg),
            c\<lparr>sessionId := Some (strip_quotes tlg), accountId := Some (strip_quotes tac)\<rparr>,
            w\<lparr>replies := rest,
              requests := requests w @
                [AuthenticatePublisherAccount (baseUrl c) (username c) (password c)
                   (applicationId c),
                 LoginPublisherAccountById (baseUrl c) (Some (strip_quotes tac)) (password c)
                   (applicationId c)]\<rparr>)"
  using assms
  by (simp add: authenticate_def authenticate_account_def authenticate_login_def
        makeRequest_def)

lemma authenticate_cached:
  assumes "\<not> falsy (accountId c)"
    and "replies w = Reply slg tlg jlg # rest"
    and "ok slg" and "strip_quotes tlg \<noteq> zeroUuid"
  shows "authenticate c w =
           (Inr (strip_quotes tlg), c\<lparr>sessionId := Some (strip_quotes tlg)\<rparr>,
            w\<lparr>replies := rest,
              requests := requests w @
                [LoginPublisherAccountById (baseUrl c) (accountId c) (password c)
                   (applicationId c)]\<rparr>)"
  using assms
  by (simp add: authenticate_def authenticate_account_def authenticate_login_def
        makeRequest_def)

lemma reauthenticate_ok:
  assumes "replies w = Reply sac tac jac # Reply slg tlg jlg # rest"
    and "ok sac" and "strip_quotes tac \<noteq> zeroUuid"
    and "ok slg" and "strip_quotes tlg \<noteq> zeroUuid"
  shows "reauthenticate c w =
           (Retry,
            c\<lparr>sessionId := Some (strip_quotes tlg), accountId := Some (strip_quotes tac)\<rparr>,
            w\<lparr>replies := rest,
              requests := requests w @
                [AuthenticatePublisherAccount (baseUrl c) (username c) (password c)
                   (applicationId c),
                 LoginPublisherAccountById (baseUrl c) (Some (strip_quotes tac)) (password c)
                   (applicationId c)]\<rparr>)"
proof -
  have "falsy (accountId (c\<lparr>sessionId := None, accountId := None\<rparr>))"
    by (simp add: falsy_def)
  from authenticate_fresh [OF this assms] show ?thesis
    by (simp add: reauthenticate_def)
qed

lemma readGlucoseValues_body_expiry:
  assumes "\<not> falsy (sessionId c)"
    and "jsonCode j = Some ''SessionIdNotFound''"
    and "replies w = Reply 500 t j # Reply sac tac jac # Reply slg tlg jlg # rest"
    and "ok sac" and "strip_quotes tac \<noteq> zeroUuid"
    and "ok slg" and "strip_quotes tlg \<noteq> zeroUuid"
  shows "readGlucoseValues_body c minutes maxCount w =
           (Retry,
            c\<lparr>sessionId := Some (strip_quotes tlg), accountId := Some (strip_quotes tac)\<rparr>,
            w\<lparr>replies := rest,
              requests := requests w @
                [ReadPublisherLatestGlucoseValues (baseUrl c) (sessionId c) minutes maxCount,
                 AuthenticatePublisherAccount (baseUrl c) (username c) (password c)
                   (applicationId c),
                 LoginPublisherAccountById (baseUrl c) (Some (strip_quotes tac)) (password c)
                   (applicationId c)]\<rparr>)"
proof -
  let ?w1 = "w\<lparr>replies := Reply sac tac jac # Reply slg tlg jlg # rest,
               requests := requests w @
                 [ReadPublisherLatestGlucoseValues (baseUrl c) (sessionId c) minutes maxCount]\<rparr>"
  have "replies ?w1 = Reply sac tac jac # Reply slg tlg jlg # rest" by simp
  from reauthenticate_ok [OF this assms(4-7), of c]
  have "readGlucoseValues_try c minutes maxCount w =
          (Retry,
            c\<lparr>sessionId := Some (strip_quotes tlg), accountId := Some (strip_quotes tac)\<rparr>,
            w\<lparr>replies := rest,
              requests := requests w @
                [ReadPublisherLatestGlucoseValues (baseUrl c) (sessionId c) minutes maxCount,
                 AuthenticatePublisherAccount (baseUrl c) (username c) (password c)
                   (applicationId c),
                 LoginPublisherAccountById (baseUrl c) (Some (strip_quotes tac)) (password c)
                   (applicationId c)]\<rparr>)"
    using assms(2,3) by (simp add: readGlucoseValues_try_def makeRequest_def)
  with assms(1) show ?thesis
    by (simp add: readGlucoseValues_body_def ensureSession_def)
qed

lemma writeGlucoseValues_body_expiry:
  assumes "\<not> falsy (sessionId c)"
    and "jsonCode j = Some ''SessionIdNotFound''"
    and "replies w = Reply 500 t j # Reply sac tac jac # Reply slg tlg jlg # rest"
    and "ok sac" and "strip_quotes tac \<noteq> zeroUuid"
    and "ok slg" and "strip_quotes tlg \<noteq> zeroUuid"
  shows "writeGlucoseValues_body c sn egvs w =
           (Retry,
            c\<lparr>sessionId := Some (strip_quotes tlg), accountId := Some (strip_quotes tac)\<rparr>,
            w\<lparr>replies := rest,
              requests := requests w @
                [PostReceiverEgvRecords (baseUrl c) (sessionId c) sn egvs (- tzOffset w),
                 AuthenticatePublisherAccount (baseUrl c) (username c) (password c)
                   (applicationId c),
                 LoginPublisherAccountById (baseUrl c) (Some (strip_quotes tac)) (password c)
                   (applicationId c)]\<rparr>)"
proof -
  let ?w1 = "w\<lparr>replies := Reply sac tac jac # Reply slg tlg jlg # rest,
               requests := requests w @
                 [PostReceiverEgvRecords (baseUrl c) (sessionId c) sn egvs (- tzOffset w)]\<rparr>"
  have "replies ?w1 = Reply sac tac jac # Reply slg tlg jlg # rest" by simp
  from reauthenticate_ok [OF this assms(4-7), of c]
  have "writeGlucoseValues_try c sn egvs w =
          (Retry,
            c\<lparr>sessionId := Some (strip_quotes tlg), accountId := Some (strip_quotes tac)\<rparr>,
            w\<lparr>replies := rest,
              requests := requests w @
                [PostReceiverEgvRecords (baseUrl c) (sessionId c) sn egvs (- tzOffset w),
                 AuthenticatePublisherAccount (baseUrl c) (username c) (password c)
                   (applicationId c),
                 LoginPublisherAccountById (baseUrl c) (Some (strip_quotes tac)) (password c)
                   (applicationId c)]\<rparr>)"
    using assms(2,3) by (simp add: writeGlucoseValues_try_def makeRequest_def)
  with assms(1) show ?thesis
    by (simp add: writeGlucoseValues_body_def ensureSession_def)
qed

text \<open>A request with a live session that is answered with a success status.\<close>

lemma readGlucoseValues_ok:
  assumes "\<not> falsy (sessionId c)" and "replies w = Reply st t j # rest" and "ok st"
  shows "readGlucoseValues c minutes maxCount w =
           (Inr (case j of JArr readings \<Rightarrow> readings | _ \<Rightarrow> []), c,
            w\<lparr>replies := rest,
              requests := requests w @
                [ReadPublisherLatestGlucoseValues (baseUrl c) (sessionId c) minutes
                   maxCount]\<rparr>)"
proof -
  from assms(3) have "st \<noteq> 500" by (auto simp: ok_def)
  with assms have "readGlucoseValues_body c minutes maxCount w =
           (Return (case j of JArr readings \<Rightarrow> readings | _ \<Rightarrow> []), c,
            w\<lparr>replies := rest,
              requests := requests w @
                [ReadPublisherLatestGlucoseValues (baseUrl c) (sessionId c) minutes
                   maxCount]\<rparr>)"
    by (simp add: readGlucoseValues_body_def ensureSession_def readGlucoseValues_try_def
          makeRequest_def split: json.splits)
  then show ?thesis by (simp add: readGlucoseValues.simps)
qed

lemma writeGlucoseValues_ok:
  assumes "\<not> falsy (sessionId c)" and "replies w = Reply st t j # rest" and "ok st"
  shows "writeGlucoseValues c sn egvs w =
           (Inr True, c,
            w\<lparr>replies := rest,
              requests := requests w @
                [PostReceiverEgvRecords (baseUrl c) (sessionId c) sn egvs (- tzOffset w)]\<rparr>)"
proof -
  from assms(3) have "st \<noteq> 500" by (auto simp: ok_def)
  with assms have "writeGlucoseValues_body c sn egvs w =
           (Return True, c,
            w\<lparr>replies := rest,
              requests := requests w @
                [PostReceiverEgvRecords (baseUrl c) (sessionId c) sn egvs (- tzOffset w)]\<rparr>)"
    by (simp add: writeGlucoseValues_body_def ensureSession_def writeGlucoseValues_try_def
          makeRequest_def)
  then show ?thesis by (simp add: writeGlucoseValues.simps)
qed


text \<open>
  Claim C3.  A client with a live session whose read (or upload) is answered with
  status 500 and code \<open>SessionIdNotFound\<close>, and whose account-authenticate and login
  requests then succeed: the operation continues as the same operation started afresh
  with the two new tokens, after exactly three requests (the failed one, one
  account-authenticate and one login), whatever the old tokens were.  When the new
  session token is not empty and the retried request is answered with a success status,
  the operation returns that reply's readings (\<open>true\<close> for an upload) after exactly
  four requests; no error reaches the caller.
\<close>

theorem session_expiry_recovery:
  assumes sess: "\<not> falsy (sessionId c)"
    and code: "jsonCode j = Some ''SessionIdNotFound''"
    and script: "replies w = Reply 500 t j # Reply sac tac jac # Reply slg tlg jlg # rest"
    and auth: "ok sac" "strip_quotes tac \<noteq> zeroUuid"
    and login: "ok slg" "strip_quotes tlg \<noteq> zeroUuid"
  shows
    "(let c' = c\<lparr>sessionId := Some (strip_quotes tlg),
                   accountId := Some (strip_quotes tac)\<rparr>;
          reauth = [AuthenticatePublisherAccount (baseUrl c) (username c) (password c)
                      (applicationId c),
                    LoginPublisherAccountById (baseUrl c) (Some (strip_quotes tac))
                      (password c) (applicationId c)];
          rd = (\<lambda>sid. ReadPublisherLatestGlucoseValues (baseUrl c) sid minutes maxCount);
          wr = (\<lambda>sid. PostReceiverEgvRecords (baseUrl c) sid sn egvs (- tzOffset w))
      in readGlucoseValues c minutes maxCount w =
           readGlucoseValues c' minutes maxCount
             (w\<lparr>replies := rest, requests := requests w @ rd (sessionId c) # reauth\<rparr>) \<and>
         writeGlucoseValues c sn egvs w =
           writeGlucoseValues c' sn egvs
             (w\<lparr>replies := rest, requests := requests w @ wr (sessionId c) # reauth\<rparr>) \<and>
         (\<forall>s2 t2 j2 rest'.
            strip_quotes tlg \<noteq> [] \<and> rest = Reply s2 t2 j2 # rest' \<and> ok s2 \<longrightarrow>
            readGlucoseValues c minutes maxCount w =
              (Inr (case j2 of JArr readings \<Rightarrow> readings | _ \<Rightarrow> []), c',
               w\<lparr>replies := rest',
                 requests := requests w @ rd (sessionId c) # reauth @
                               [rd (Some (strip_quotes tlg))]\<rparr>) \<and>
            writeGlucoseValues c sn egvs w =
              (Inr True, c',
               w\<lparr>replies := rest',
                 requests := requests w @ wr (sessionId c) # reauth @
                               [wr (Some (strip_quotes tlg))]\<rparr>)))"
proof -
  let ?c' = "c\<lparr>sessionId := Some (strip_quotes tlg), accountId := Some (strip_quotes tac)\<rparr>"
  note rb = readGlucoseValues_body_expiry [OF sess code script auth login,
              of minutes maxCount]
  note wb = writeGlucoseValues_body_expiry [OF sess code script auth login, of sn egvs]
  have r1: "readGlucoseValues c minutes maxCount w =
              readGlucoseValues ?c' minutes maxCount
                (w\<lparr>replies := rest,
                   requests := requests w @
                     [ReadPublisherLatestGlucoseValues (baseUrl c) (sessionId c) minutes maxCount,
                      AuthenticatePublisherAccount (baseUrl c) (username c) (password c)
                        (applicationId c),
                      LoginPublisherAccountById (baseUrl c) (Some (strip_quotes tac))
                        (password c) (applicationId c)]\<rparr>)"
    by (subst readGlucoseValues.simps) (simp add: rb)
  have w1: "writeGlucoseValues c sn egvs w =
              writeGlucoseValues ?c' sn egvs
                (w\<lparr>replies := rest,
                   requests := requests w @
                     [PostReceiverEgvRecords (baseUrl c) (sessionId c) sn egvs (- tzOffset w),
                      AuthenticatePublisherAccount (baseUrl c) (username c) (password c)
                        (applicationId c),
                      LoginPublisherAccountById (baseUrl c) (Some (strip_quotes tac))
                        (password c) (applicationId c)]\<rparr>)"
    by (subst writeGlucoseValues.simps) (simp add: wb)
  show ?thesis
    unfolding Let_def
  proof (intro conjI allI impI)
    show "readGlucoseValues c minutes maxCount w =
            readGlucoseValues ?c' minutes maxCount
              (w\<lparr>replies := rest,
                 requests := requests w @
                   ReadPublisherLatestGlucoseValues (baseUrl c) (sessionId c) minutes maxCount #
                   [AuthenticatePublisherAccount (baseUrl c) (username c) (password c)
                      (applicationId c),
                    LoginPublisherAccountById (baseUrl c) (Some (strip_quotes tac))
                      (password c) (applicationId c)]\<rparr>)"
      using r1 by simp
  next
    show "writeGlucoseValues c sn egvs w =
            writeGlucoseValues ?c' sn egvs
              (w\<lparr>replies := rest,
                 requests := requests w @
                   PostReceiverEgvRecords (baseUrl c) (sessionId c) sn egvs (- tzOffset w) #
                   [AuthenticatePublisherAccount (baseUrl c) (username c) (password c)
                      (applicationId c),
                    LoginPublisherAccountById (baseUrl c) (Some (strip_quotes tac))
                      (password c) (applicationId c)]\<rparr>)"
      using w1 by simp
  next
    fix s2 t2 j2 rest'
    assume a: "strip_quotes tlg \<noteq> [] \<and> rest = Reply s2 t2 j2 # rest' \<and> ok s2"
    then show "readGlucoseValues c minutes maxCount w =
              (Inr (case j2 of JArr readings \<Rightarrow> readings | _ \<Rightarrow> []), ?c',
               w\<lparr>replies := rest',
                 requests := requests w @
                   ReadPublisherLatestGlucoseValues (baseUrl c) (sessionId c) minutes maxCount #
                   [AuthenticatePublisherAccount (baseUrl c) (username c) (password c)
                      (applicationId c),
                    LoginPublisherAccountById (baseUrl c) (Some (strip_quotes tac))
                      (password c) (applicationId c)] @
                   [ReadPublisherLatestGlucoseValues (baseUrl c) (Some (strip_quotes tlg))
                      minutes maxCount]\<rparr>)"
      unfolding r1
      by (subst readGlucoseValues_ok [where st = s2 and t = t2 and j = j2 and rest = rest'])
         (simp_all add: falsy_def)
  next
    fix s2 t2 j2 rest'
    assume a: "strip_quotes tlg \<noteq> [] \<and> rest = Reply s2 t2 j2 # rest' \<and> ok s2"
    then show "writeGlucoseValues c sn egvs w =
              (Inr True, ?c',
               w\<lparr>replies := rest',
                 requests := requests w @
                   PostReceiverEgvRecords (baseUrl c) (sessionId c) sn egvs (- tzOffset w) #
                   [AuthenticatePublisherAccount (baseUrl c) (username c) (password c)
                      (applicationId c),
                    LoginPublisherAccountById (baseUrl c) (Some (strip_quotes tac))
                      (password c) (applicationId c)] @
                   [PostReceiverEgvRecords (baseUrl c) (Some (strip_quotes tlg)) sn egvs
                      (- tzOffset w)]\<rparr>)"
      unfolding w1
      by (subst writeGlucoseValues_ok [where st = s2 and t = t2 and j = j2 and rest = rest'])
         (simp_all add: falsy_def)
  qed
qed


text \<open>A client whose session the server has dropped; the server then accepts a new login.\<close>

definition expiry_client :: client where
  "expiry_client = logged_in (DexcomClient ''alice'' ''pw1'' ''us'') ''A1'' ''S1''"

definition expiry_world :: world where
  "expiry_world =
     \<lparr> replies = [Reply 500 [] (JObj (Some ''SessionIdNotFound'') (Some ''Session not found'')),
                  Reply 200 (CHR 0x22 # ''A2'' @ [CHR 0x22]) JOther,
                  Reply 200 (CHR 0x22 # ''S2'' @ [CHR 0x22]) JOther,
                  Reply 200 [] (JArr [example_reading ''/Date(1700000000000)/''])],
       requests = [], clock = 1700000100000, tzOffset = - 60 \<rparr>"

theorem session_expiry_recovery_witness:
  "readGlucoseValues expiry_client 15 12 expiry_world =
     (Inr [example_reading ''/Date(1700000000000)/''],
      logged_in (DexcomClient ''alice'' ''pw1'' ''us'') ''A2'' ''S2'',
      expiry_world\<lparr>replies := [],
        requests :=
          [ReadPublisherLatestGlucoseValues ''https://share2.dexcom.com'' (Some ''S1'') 15 12,
           AuthenticatePublisherAccount ''https://share2.dexcom.com'' ''alice'' ''pw1''
             ''d89443d2-327c-4a6f-89e5-496bbb0317db'',
           LoginPublisherAccountById ''https://share2.dexcom.com'' (Some ''A2'') ''pw1''
             ''d89443d2-327c-4a6f-89e5-496bbb0317db'',
           ReadPublisherLatestGlucoseValues ''https://share2.dexcom.com'' (Some ''S2'')
             15 12]\<rparr>) \<and>
   writeGlucoseValues expiry_client ''DEX2COM0001'' [] expiry_world =
     (Inr True,
      logged_in (DexcomClient ''alice'' ''pw1'' ''us'') ''A2'' ''S2'',
      expiry_world\<lparr>replies := [],
        requests :=
          [PostReceiverEgvRecords ''https://share2.dexcom.com'' (Some ''S1'') ''DEX2COM0001''
             [] 60,
           AuthenticatePublisherAccount ''https://share2.dexcom.com'' ''alice'' ''pw1''
             ''d89443d2-327c-4a6f-89e5-496bbb0317db'',
           LoginPublisherAccountById ''https://share2.dexcom.com'' (Some ''A2'') ''pw1''
             ''d89443d2-327c-4a6f-89e5-496bbb0317db'',
           PostReceiverEgvRecords ''https://share2.dexcom.com'' (Some ''S2'') ''DEX2COM0001''
             [] 60]\<rparr>)"
proof -
  have sess: "\<not> falsy (sessionId expiry_client)"
    by (simp add: expiry_client_def logged_in_def falsy_def)
  have code: "jsonCode (JObj (Some ''SessionIdNotFound'') (Some ''Session not found''))
                = Some ''SessionIdNotFound''"
    by simp
  have script: "replies expiry_world =
      Reply 500 [] (JObj (Some ''SessionIdNotFound'') (Some ''Session not found'')) #
      Reply 200 (CHR 0x22 # ''A2'' @ [CHR 0x22]) JOther #
      Reply 200 (CHR 0x22 # ''S2'' @ [CHR 0x22]) JOther #
      [Reply 200 [] (JArr [example_reading ''/Date(1700000000000)/''])]"
    by (simp add: expiry_world_def)
  have ok200: "ok 200" by (simp add: ok_def)
  have a2: "strip_quotes (CHR 0x22 # ''A2'' @ [CHR 0x22]) \<noteq> zeroUuid"
    by (simp add: strip_quotes_def zeroUuid_def)
  have s2: "strip_quotes (CHR 0x22 # ''S2'' @ [CHR 0x22]) \<noteq> zeroUuid"
    by (simp add: strip_quotes_def zeroUuid_def)
  note final = session_expiry_recovery [OF sess code script ok200 a2 ok200 s2,
      of 15 12 "''DEX2COM0001''" "[]", unfolded Let_def, THEN conjunct2, THEN conjunct2,
      rule_format, of 200 "[]" "JArr [example_reading ''/Date(1700000000000)/'']" "[]"]
  show ?thesis
    using final ok200
    by (simp add: strip_quotes_def expiry_client_def logged_in_def DexcomClient_def
          BaseUrls_def toLowerCase_def expiry_world_def)
qed


subsection \<open>The life of the account token\<close>

text \<open>
  A new client authenticates (account \<open>A1\<close>, session \<open>S1\<close>), its read is answered
  with a session expiry, and the account-authenticate request that follows is refused
  with status 401.
\<close>

definition lifecycle_world :: world where
  "lifecycle_world =
     \<lparr> replies = [Reply 200 ''A1'' JOther, Reply 200 ''S1'' JOther,
                  Reply 500 [] (JObj (Some ''SessionIdNotFound'') None),
                  Reply 401 [] JNull],
       requests = [], clock = 1700000100000, tzOffset = 0 \<rparr>"

text \<open>
  Claim C5 as stated fails: the account token that the first authentication has set is
  cleared by the recovery from a session expiry.  Here it is \<open>A1\<close> after
  \<open>authenticate\<close>, and absent after a read that starts with the same authentication.
\<close>

theorem account_token_cleared_counterexample:
  "accountId (fst (snd (authenticate (DexcomClient ''alice'' ''pw1'' ''us'') lifecycle_world)))
     = Some ''A1'' \<and>
   fst (readGlucoseValues (DexcomClient ''alice'' ''pw1'' ''us'') 15 12 lifecycle_world)
     = Inl ''Authentication error: Account authentication failed: 401'' \<and>
   accountId (fst (snd (readGlucoseValues (DexcomClient ''alice'' ''pw1'' ''us'') 15 12
                          lifecycle_world))) = None \<and>
   sessionId (fst (snd (readGlucoseValues (DexcomClient ''alice'' ''pw1'' ''us'') 15 12
                          lifecycle_world))) = None"
  by code_simp

text \<open>
  Claim C5, amended.  Both tokens are absent at construction.  While the account token
  is cached, \<open>authenticate\<close> sends the login only and leaves the account token as it
  is.  When a read or an upload with a live session is answered with status 500 and code
  \<open>SessionIdNotFound\<close>, both tokens are cleared: the account-authenticate request is
  sent again, and after a successful login the account token is the one of the new
  reply, whatever it was before.
\<close>

theorem account_token_lifecycle:
  "(sessionId (DexcomClient u p r) = None \<and> accountId (DexcomClient u p r) = None) \<and>
   (\<not> falsy (accountId c) \<and> replies w = Reply slg tlg jlg # rest \<and> ok slg \<and>
    strip_quotes tlg \<noteq> zeroUuid \<longrightarrow>
      authenticate c w =
        (Inr (strip_quotes tlg), c\<lparr>sessionId := Some (strip_quotes tlg)\<rparr>,
         w\<lparr>replies := rest,
           requests := requests w @
             [LoginPublisherAccountById (baseUrl c) (accountId c) (password c)
                (applicationId c)]\<rparr>)) \<and>
   (\<not> falsy (sessionId c) \<and> jsonCode j = Some ''SessionIdNotFound'' \<and>
    replies w = Reply 500 t j # Reply sac tac jac # Reply slg tlg jlg # rest \<and>
    ok sac \<and> strip_quotes tac \<noteq> zeroUuid \<and> ok slg \<and> strip_quotes tlg \<noteq> zeroUuid \<longrightarrow>
      readGlucoseValues_body c minutes maxCount w =
        (Retry,
         c\<lparr>sessionId := Some (strip_quotes tlg), accountId := Some (strip_quotes tac)\<rparr>,
         w\<lparr>replies := rest,
           requests := requests w @
             [ReadPublisherLatestGlucoseValues (baseUrl c) (sessionId c) minutes maxCount,
              AuthenticatePublisherAccount (baseUrl c) (username c) (password c)
                (applicationId c),
              LoginPublisherAccountById (baseUrl c) (Some (strip_quotes tac)) (password c)
                (applicationId c)]\<rparr>) \<and>
      writeGlucoseValues_body c sn egvs w =
        (Retry,
         c\<lparr>sessionId := Some (strip_quotes tlg), accountId := Some (strip_quotes tac)\<rparr>,
         w\<lparr>replies := rest,
           requests := requests w @
             [PostReceiverEgvRecords (baseUrl c) (sessionId c) sn egvs (- tzOffset w),
              AuthenticatePublisherAccount (baseUrl c) (username c) (password c)
                (applicationId c),
              LoginPublisherAccountById (baseUrl c) (Some (strip_quotes tac)) (password c)
                (applicationId c)]\<rparr>))"
proof (intro conjI impI)
  show "sessionId (DexcomClient u p r) = None" by (simp add: DexcomClient_def)
  show "accountId (DexcomClient u p r) = None" by (simp add: DexcomClient_def)
next
  assume "\<not> falsy (accountId c) \<and> replies w = Reply slg tlg jlg # rest \<and> ok slg \<and>
          strip_quotes tlg \<noteq> zeroUuid"
  then show "authenticate c w =
        (Inr (strip_quotes tlg), c\<lparr>sessionId := Some (strip_quotes tlg)\<rparr>,
         w\<lparr>replies := rest,
           requests := requests w @
             [LoginPublisherAccountById (baseUrl c) (accountId c) (password c)
                (applicationId c)]\<rparr>)"
    using authenticate_cached [where c = c and w = w and slg = slg and tlg = tlg
            and jlg = jlg and rest = rest]
    by simp
next
  assume a: "\<not> falsy (sessionId c) \<and> jsonCode j = Some ''SessionIdNotFound'' \<and>
    replies w = Reply 500 t j # Reply sac tac jac # Reply slg tlg jlg # rest \<and>
    ok sac \<and> strip_quotes tac \<noteq> zeroUuid \<and> ok slg \<and> strip_quotes tlg \<noteq> zeroUuid"
  then show "readGlucoseValues_body c minutes maxCount w =
        (Retry,
         c\<lparr>sessionId := Some (strip_quotes tlg), accountId := Some (strip_quotes tac)\<rparr>,
         w\<lparr>replies := rest,
           requests := requests w @
             [ReadPublisherLatestGlucoseValues (baseUrl c) (sessionId c) minutes maxCount,
              AuthenticatePublisherAccount (baseUrl c) (username c) (password c)
                (applicationId c),
              LoginPublisherAccountById (baseUrl c) (Some (strip_quotes tac)) (password c)
                (applicationId c)]\<rparr>)"
    using readGlucoseValues_body_expiry [where c = c and w = w and j = j and t = t
            and sac = sac and tac = tac and jac = jac and slg = slg and tlg = tlg
            and jlg = jlg and rest = rest]
    by simp
  from a show "writeGlucoseValues_body c sn egvs w =
        (Retry,
         c\<lparr>sessionId := Some (strip_quotes tlg), accountId := Some (strip_quotes tac)\<rparr>,
         w\<lparr>replies := rest,
           requests := requests w @
             [PostReceiverEgvRecords (baseUrl c) (sessionId c) sn egvs (- tzOffset w),
              AuthenticatePublisherAccount (baseUrl c) (username c) (password c)
                (applicationId c),
              LoginPublisherAccountById (baseUrl c) (Some (strip_quotes tac)) (password c)
                (applicationId c)]\<rparr>)"
    using writeGlucoseValues_body_expiry [where c = c and w = w and j = j and t = t
            and sac = sac and tac = tac and jac = jac and slg = slg and tlg = tlg
            and jlg = jlg and rest = rest]
    by simp
qed

text \<open>The same on a client that holds \<open>A1\<close> and \<open>S1\<close>: a login alone, then an expiry.\<close>

theorem account_token_lifecycle_witness:
  "authenticate expiry_client
     \<lparr> replies = [Reply 200 ''S9'' JOther], requests = [], clock = 0, tzOffset = 0 \<rparr> =
     (Inr ''S9'', logged_in (DexcomClient ''alice'' ''pw1'' ''us'') ''A1'' ''S9'',
      \<lparr> replies = [],
        requests = [LoginPublisherAccountById ''https://share2.dexcom.com'' (Some ''A1'')
                      ''pw1'' ''d89443d2-327c-4a6f-89e5-496bbb0317db''],
        clock = 0, tzOffset = 0 \<rparr>) \<and>
   readGlucoseValues_body expiry_client 15 12 expiry_world =
     (Retry, logged_in (DexcomClient ''alice'' ''pw1'' ''us'') ''A2'' ''S2'',
      expiry_world\<lparr>replies := [Reply 200 [] (JArr [example_reading ''/Date(1700000000000)/''])],
        requests :=
          [ReadPublisherLatestGlucoseValues ''https://share2.dexcom.com'' (Some ''S1'') 15 12,
           AuthenticatePublisherAccount ''https://share2.dexcom.com'' ''alice'' ''pw1''
             ''d89443d2-327c-4a6f-89e5-496bbb0317db'',
           LoginPublisherAccountById ''https://share2.dexcom.com'' (Some ''A2'') ''pw1''
             ''d89443d2-327c-4a6f-89e5-496bbb0317db'']\<rparr>)"
proof -
  have acc: "\<not> falsy (accountId expiry_client)"
    by (simp add: expiry_client_def logged_in_def falsy_def)
  have sess: "\<not> falsy (sessionId expiry_client)"
    by (simp add: expiry_client_def logged_in_def falsy_def)
  have ok200: "ok 200" by (simp add: ok_def)
  have s9: "strip_quotes ''S9'' \<noteq> zeroUuid" by (simp add: strip_quotes_def zeroUuid_def)
  have a2: "strip_quotes (CHR 0x22 # ''A2'' @ [CHR 0x22]) \<noteq> zeroUuid"
    by (simp add: strip_quotes_def zeroUuid_def)
  have s2: "strip_quotes (CHR 0x22 # ''S2'' @ [CHR 0x22]) \<noteq> zeroUuid"
    by (simp add: strip_quotes_def zeroUuid_def)
  have script: "replies expiry_world =
      Reply 500 [] (JObj (Some ''SessionIdNotFound'') (Some ''Session not found'')) #
      Reply 200 (CHR 0x22 # ''A2'' @ [CHR 0x22]) JOther #
      Reply 200 (CHR 0x22 # ''S2'' @ [CHR 0x22]) JOther #
      [Reply 200 [] (JArr [example_reading ''/Date(1700000000000)/''])]"
    by (simp add: expiry_world_def)
  note login = account_token_lifecycle [THEN conjunct2, THEN conjunct1, rule_format,
      of expiry_client
         "\<lparr> replies = [Reply 200 ''S9'' JOther], requests = [], clock = 0, tzOffset = 0 \<rparr>"
         200 "''S9''" JOther "[]"]
  note expiry = account_token_lifecycle [THEN conjunct2, THEN conjunct2, rule_format,
      THEN conjunct1,
      of expiry_client
         "JObj (Some ''SessionIdNotFound'') (Some ''Session not found'')"
         expiry_world "[]" 200 "CHR 0x22 # ''A2'' @ [CHR 0x22]" JOther
         200 "CHR 0x22 # ''S2'' @ [CHR 0x22]" JOther
         "[Reply 200 [] (JArr [example_reading ''/Date(1700000000000)/''])]" 15 12]
  show ?thesis
    using login expiry acc sess ok200 s9 a2 s2 script
    by (simp add: strip_quotes_def expiry_client_def logged_in_def DexcomClient_def
          BaseUrls_def toLowerCase_def expiry_world_def)
qed

section \<open>Properties of the set of synced timestamps\<close>

lemma set_foldl_set_add:
  "set (foldl (\<lambda>xs r. set_add xs (f r)) xs rs) = set xs \<union> f ` set rs"
  by (induction rs arbitrary: xs) (auto simp: set_add_def)

lemma set_cleanupOldTimestamps:
  "set (syncedTimestamps (cleanupOldTimestamps s w)) =
     {k \<in> set (syncedTimestamps s). clock w - 24 * 60 * 60 * 1000 < k}"
  by (auto simp: cleanupOldTimestamps_def Let_def)

text \<open>The outcome of a cycle whose read and upload both succeed.\<close>

lemma sync_written:
  assumes rd: "readGlucoseValues (sourceClient s) (readWindow s) (readMaxCount s) w
                 = (Inr readings, src, w1)"
    and new: "filter (\<lambda>r. \<not> set_has (syncedTimestamps s) (extractTimestamp (WT r))) readings
                \<noteq> []"
    and wr: "writeGlucoseValues (destClient s) (serialNumber s)
               (map toEgv (filter (\<lambda>r. \<not> set_has (syncedTimestamps s)
                                          (extractTimestamp (WT r))) readings)) w1
               = (Inr b, dst, w2)"
    and res: "sync s w = (res, s', w')"
  shows "w' = w2"
    and "success res" and "errors res = []"
    and "readCount res = length readings"
    and "skippedCount res =
           length (filter (\<lambda>r. set_has (syncedTimestamps s) (extractTimestamp (WT r)))
                     readings)"
    and "writeCount res =
           length (filter (\<lambda>r. \<not> set_has (syncedTimestamps s) (extractTimestamp (WT r)))
                     readings)"
    and "set (syncedTimestamps s') =
           {k \<in> set (syncedTimestamps s) \<union>
                  (\<lambda>r. extractTimestamp (WT r)) `
                    {r \<in> set readings. \<not> set_has (syncedTimestamps s)
                                           (extractTimestamp (WT r))}.
              clock w2 - 24 * 60 * 60 * 1000 < k}"
proof -
  from new have rne: "readings \<noteq> []" by auto
  let ?new = "filter (\<lambda>r. \<not> set_has (syncedTimestamps s) (extractTimestamp (WT r))) readings"
  let ?s2 = "s\<lparr>sourceClient := src, destClient := dst,
               syncedTimestamps :=
                 foldl (\<lambda>xs reading. set_add xs (extractTimestamp (WT reading)))
                   (syncedTimestamps s) ?new\<rparr>"
  have eq: "sync s w =
          (\<lparr> success = True, readCount = length readings, writeCount = length ?new,
             skippedCount = length readings - length ?new, errors = [] \<rparr>,
           (cleanupOldTimestamps ?s2 w2)\<lparr>lastSyncTime := Some (clock w2)\<rparr>, w2)"
    using rd new rne wr by (simp add: sync_def Let_def)
  from res have "(res, s', w') = sync s w" by simp
  also note eq
  finally have trip: "(res, s', w') =
          (\<lparr> success = True, readCount = length readings, writeCount = length ?new,
             skippedCount = length readings - length ?new, errors = [] \<rparr>,
           (cleanupOldTimestamps ?s2 w2)\<lparr>lastSyncTime := Some (clock w2)\<rparr>, w2)" .
  from trip have r: "res = \<lparr> success = True, readCount = length readings,
                            writeCount = length ?new,
                            skippedCount = length readings - length ?new, errors = [] \<rparr>"
    by simp
  from trip have s: "s' = (cleanupOldTimestamps ?s2 w2)\<lparr>lastSyncTime := Some (clock w2)\<rparr>"
    by simp
  from trip have w: "w' = w2" by simp
  show "w' = w2" by (rule w)
  show "success res" "errors res = []" "readCount res = length readings"
    "writeCount res = length ?new"
    by (simp_all add: r)
  show "skippedCount res =
           length (filter (\<lambda>r. set_has (syncedTimestamps s) (extractTimestamp (WT r)))
                     readings)"
    by (simp add: r skipped_count)
  have "syncedTimestamps s' = syncedTimestamps (cleanupOldTimestamps ?s2 w2)"
    by (simp add: s cleanupOldTimestamps_def Let_def)
  then show "set (syncedTimestamps s') =
           {k \<in> set (syncedTimestamps s) \<union>
                  (\<lambda>r. extractTimestamp (WT r)) `
                    {r \<in> set readings. \<not> set_has (syncedTimestamps s)
                                           (extractTimestamp (WT r))}.
              clock w2 - 24 * 60 * 60 * 1000 < k}"
    by (simp add: set_cleanupOldTimestamps set_foldl_set_add)
qed

text \<open>The outcomes of a cycle whose read succeeds, by what happens then.\<close>

lemma sync_cases:
  assumes rd: "readGlucoseValues (sourceClient s) (readWindow s) (readMaxCount s) w
                 = (Inr readings, src, w1)"
  obtains
    (nothing_new)
      "filter (\<lambda>r. \<not> set_has (syncedTimestamps s) (extractTimestamp (WT r))) readings = []"
      "sync s w =
         (\<lparr> success = True, readCount = length readings, writeCount = 0,
            skippedCount = length readings, errors = [] \<rparr>,
          s\<lparr>sourceClient := src\<rparr>, w1)"
  | (failed) e dst w2 where
      "filter (\<lambda>r. \<not> set_has (syncedTimestamps s) (extractTimestamp (WT r))) readings \<noteq> []"
      "writeGlucoseValues (destClient s) (serialNumber s)
         (map toEgv (filter (\<lambda>r. \<not> set_has (syncedTimestamps s)
                                    (extractTimestamp (WT r))) readings)) w1
         = (Inl e, dst, w2)"
      "sync s w =
         (\<lparr> success = False, readCount = length readings, writeCount = 0,
            skippedCount =
              length (filter (\<lambda>r. set_has (syncedTimestamps s) (extractTimestamp (WT r)))
                        readings),
            errors = [e] \<rparr>,
          s\<lparr>sourceClient := src, destClient := dst\<rparr>, w2)"
  | (written) b dst w2 where
      "filter (\<lambda>r. \<not> set_has (syncedTimestamps s) (extractTimestamp (WT r))) readings \<noteq> []"
      "writeGlucoseValues (destClient s) (serialNumber s)
         (map toEgv (filter (\<lambda>r. \<not> set_has (syncedTimestamps s)
                                    (extractTimestamp (WT r))) readings)) w1
         = (Inr b, dst, w2)"
proof -
  let ?new = "filter (\<lambda>r. \<not> set_has (syncedTimestamps s) (extractTimestamp (WT r))) readings"
  show thesis
  proof (cases "?new = []")
    case True
    with rd have "sync s w =
         (\<lparr> success = True, readCount = length readings, writeCount = 0,
            skippedCount = length readings, errors = [] \<rparr>,
          s\<lparr>sourceClient := src\<rparr>, w1)"
      by (cases "readings = []") (simp_all add: sync_def Let_def)
    with True show thesis by (rule nothing_new)
  next
    case False
    then have rne: "readings \<noteq> []" by auto
    obtain r dst w2 where wr:
      "writeGlucoseValues (destClient s) (serialNumber s) (map toEgv ?new) w1 = (r, dst, w2)"
      by (cases "writeGlucoseValues (destClient s) (serialNumber s) (map toEgv ?new) w1") auto
    show thesis
    proof (cases r)
      case (Inl e)
      with rd False rne wr have "sync s w =
         (\<lparr> success = False, readCount = length readings, writeCount = 0,
            skippedCount =
              length (filter (\<lambda>r. set_has (syncedTimestamps s) (extractTimestamp (WT r)))
                        readings),
            errors = [e] \<rparr>,
          s\<lparr>sourceClient := src, destClient := dst\<rparr>, w2)"
        by (simp add: sync_def Let_def skipped_count)
      with False wr Inl show thesis by (auto intro: failed)
    next
      case (Inr b)
      with False wr show thesis by (auto intro: written)
    qed
  qed
qed


subsection \<open>Pruning\<close>

text \<open>
  The cycle that follows a first cycle, as the daemon runs them when the first has
  ended before the next tick: it starts with the syncer and the world the first left.
\<close>

definition second_cycle :: "syncer \<Rightarrow> world \<Rightarrow> sync_result \<times> syncer \<times> world" where
  "second_cycle s w = (case sync s w of (res1, s1, w1) \<Rightarrow> sync s1 w1)"

text \<open>
  A syncer with a read window of 30 hours, and a world at 2023-11-14T22:13:20Z whose
  source returns one reading received 25 hours earlier; every request succeeds.
\<close>

definition old_reading_syncer :: syncer where
  "old_reading_syncer = Dex2ComSyncer (example_config\<lparr>syncIntervalMinutes := 600\<rparr>)"

definition old_reading_world :: world where
  "old_reading_world =
     \<lparr> replies = [Reply 200 ''A1'' JOther, Reply 200 ''S1'' JOther,
                  Reply 200 [] (JArr [example_reading ''/Date(1699910000000)/'']),
                  Reply 200 ''A2'' JOther, Reply 200 ''S2'' JOther,
                  Reply 200 [] JNull],
       requests = [], clock = 1700000000000, tzOffset = 0 \<rparr>"

text \<open>
  Claim C8 as stated fails: the key \<open>1699910000000\<close> is added at time
  \<open>T = 1700000000000\<close> by a cycle that uploads its reading, and the pruning at the end
  of the same cycle removes it, so that it is absent at time \<open>T\<close>, which is before
  \<open>T + 24h\<close>.
\<close>

theorem prune_by_age_of_insertion_counterexample:
  "success (fst (sync old_reading_syncer old_reading_world)) \<and>
   writeCount (fst (sync old_reading_syncer old_reading_world)) = 1 \<and>
   extractTimestamp ''/Date(1699910000000)/'' = 1699910000000 \<and>
   clock (snd (snd (sync old_reading_syncer old_reading_world))) = 1700000000000 \<and>
   \<not> set_has (syncedTimestamps (fst (snd (sync old_reading_syncer old_reading_world))))
         1699910000000"
  by code_simp

text \<open>
  Claim C8, amended.  Pruning looks at the value of a key, not at the time it was
  added: after \<open>cleanupOldTimestamps\<close> has run at time \<open>now\<close> the set holds exactly
  the keys it held before that are strictly greater than \<open>now - 24h\<close>.  So a key whose
  value is the epoch millisecond \<open>k\<close> is absent after a pruning at any time from
  \<open>k + 24h\<close> on, and a key that was in the set is still there after a pruning at any time
  before \<open>k + 24h\<close>.
\<close>

theorem cleanup_keeps_newer_keys:
  "set (syncedTimestamps (cleanupOldTimestamps s w)) =
     {k \<in> set (syncedTimestamps s). clock w - 24 * 60 * 60 * 1000 < k} \<and>
   (k + 24 * 60 * 60 * 1000 \<le> clock w \<longrightarrow>
      \<not> set_has (syncedTimestamps (cleanupOldTimestamps s w)) k) \<and>
   (set_has (syncedTimestamps s) k \<and> clock w < k + 24 * 60 * 60 * 1000 \<longrightarrow>
      set_has (syncedTimestamps (cleanupOldTimestamps s w)) k)"
  by (auto simp: set_has_def cleanupOldTimestamps_def Let_def)

theorem cleanup_keeps_newer_keys_witness:
  "\<not> set_has (syncedTimestamps
       (cleanupOldTimestamps
          (old_reading_syncer\<lparr>syncedTimestamps := [1699910000000, 1699990000000]\<rparr>)
          old_reading_world)) 1699910000000 \<and>
   set_has (syncedTimestamps
       (cleanupOldTimestamps
          (old_reading_syncer\<lparr>syncedTimestamps := [1699910000000, 1699990000000]\<rparr>)
          old_reading_world)) 1699990000000"
proof -
  let ?s = "old_reading_syncer\<lparr>syncedTimestamps := [1699910000000, 1699990000000]\<rparr>"
  have c: "clock old_reading_world = 1700000000000" by (simp add: old_reading_world_def)
  have h: "set_has (syncedTimestamps ?s) 1699990000000" by (simp add: set_has_def)
  from cleanup_keeps_newer_keys [of ?s old_reading_world 1699910000000]
  have a: "\<not> set_has (syncedTimestamps (cleanupOldTimestamps ?s old_reading_world))
                1699910000000"
    by (simp add: c)
  from cleanup_keeps_newer_keys [of ?s old_reading_world 1699990000000] h
  have b: "set_has (syncedTimestamps (cleanupOldTimestamps ?s old_reading_world))
             1699990000000"
    by (simp add: c)
  from a b show ?thesis by simp
qed

subsection \<open>The key of a reading\<close>

text \<open>
  Following the spec's words, ``the first run of decimal digits parsed as an integer'':
  the value of a digit string in positional notation, most significant digit first,
  as an exact integer.
\<close>

definition decimal_value :: "string \<Rightarrow> int" where
  "decimal_value ds = (\<Sum>i < length ds. digitVal (ds ! i) * 10 ^ (length ds - Suc i))"

lemma digitsValue_snoc: "digitsValue (ds @ [ch]) = 10 * digitsValue ds + digitVal ch"
  by (simp add: digitsValue_def)

lemma decimal_value_snoc: "decimal_value (ds @ [ch]) = 10 * decimal_value ds + digitVal ch"
proof -
  have "(\<Sum>i < length ds. digitVal ((ds @ [ch]) ! i) * 10 ^ (Suc (length ds) - Suc i)) =
        (\<Sum>i < length ds. 10 * (digitVal (ds ! i) * 10 ^ (length ds - Suc i)))"
  proof (rule sum.cong)
    fix i assume "i \<in> {..<length ds}"
    then have i: "i < length ds" by simp
    then have "Suc (length ds) - Suc i = Suc (length ds - Suc i)" by simp
    with i show "digitVal ((ds @ [ch]) ! i) * 10 ^ (Suc (length ds) - Suc i) =
                 10 * (digitVal (ds ! i) * 10 ^ (length ds - Suc i))"
      by (simp add: nth_append)
  qed simp
  then show ?thesis
    by (simp add: decimal_value_def sum_distrib_left)
qed

lemma digitsValue_decimal_value: "digitsValue ds = decimal_value ds"
proof (induction ds rule: rev_induct)
  case Nil
  show ?case by (simp add: digitsValue_def decimal_value_def)
next
  case (snoc ch ds)
  then show ?case by (simp only: digitsValue_snoc decimal_value_snoc)
qed

lemma parseInt_decimal_value: "parseInt ds = toNumber (decimal_value ds)"
  by (simp add: parseInt_def digitsValue_decimal_value)

lemma toNumber_exact: "n < 2 ^ 53 \<Longrightarrow> toNumber n = n"
  by (simp add: toNumber_def)

lemma extractTimestamp_no_digit:
  assumes "\<forall>ch \<in> set str. \<not> isDigit ch"
  shows "extractTimestamp str = 0"
proof -
  from assms have h: "dropWhile (\<lambda>ch. \<not> isDigit ch) str = []" by simp
  show ?thesis unfolding extractTimestamp_def h by simp
qed

lemma extractTimestamp_digit_run:
  assumes pre: "\<forall>ch \<in> set pre. \<not> isDigit ch"
    and ne: "ds \<noteq> []"
    and ds: "\<forall>ch \<in> set ds. isDigit ch"
    and post: "post = [] \<or> \<not> isDigit (hd post)"
  shows "extractTimestamp (pre @ ds @ post) = toNumber (decimal_value ds)"
proof -
  from ne ds have hd: "isDigit (hd ds)" by (cases ds) auto
  from ne hd have "dropWhile (\<lambda>ch. \<not> isDigit ch) (ds @ post) = ds @ post"
    by (cases ds) auto
  with pre have d: "dropWhile (\<lambda>ch. \<not> isDigit ch) (pre @ ds @ post) = ds @ post"
    by (simp add: dropWhile_append2)
  from post have "takeWhile isDigit post = []" by (cases post) auto
  with ds have t: "takeWhile isDigit (ds @ post) = ds"
    by (simp add: takeWhile_append2)
  from d t ne show ?thesis
    by (simp add: extractTimestamp_def parseInt_decimal_value)
qed

text \<open>A cycle that has failed to read reports no success.\<close>

lemma sync_read_failed:
  assumes "readGlucoseValues (sourceClient s) (readWindow s) (readMaxCount s) w
             = (Inl e, src, w1)"
  shows "sync s w =
           (\<lparr> success = False, readCount = 0, writeCount = 0, skippedCount = 0,
              errors = [e] \<rparr>, s\<lparr>sourceClient := src\<rparr>, w1)"
  using assms by (simp add: sync_def)

text \<open>A cycle that reports success and a positive \<open>writeCount\<close> has uploaded and pruned.\<close>

lemma sync_uploaded_pruned:
  assumes res: "sync s w = (res, s', w')"
    and ok: "success res" and wc: "0 < writeCount res"
  shows "\<forall>k \<in> set (syncedTimestamps s'). clock w' - 24 * 60 * 60 * 1000 < k"
proof -
  obtain r src w1 where rd:
    "readGlucoseValues (sourceClient s) (readWindow s) (readMaxCount s) w = (r, src, w1)"
    by (cases "readGlucoseValues (sourceClient s) (readWindow s) (readMaxCount s) w") auto
  show ?thesis
  proof (cases r)
    case (Inl e)
    with rd res ok show ?thesis by (auto simp: sync_read_failed)
  next
    case (Inr readings)
    with rd have rd': "readGlucoseValues (sourceClient s) (readWindow s) (readMaxCount s) w
                         = (Inr readings, src, w1)" by simp
    from rd' show ?thesis
    proof (cases rule: sync_cases)
      case nothing_new
      with res wc show ?thesis by auto
    next
      case (failed e dst w2)
      with res ok show ?thesis by auto
    next
      case (written b dst w2)
      from sync_written(1,7) [OF rd' written res] show ?thesis by simp
    qed
  qed
qed


text \<open>
  A present-day world whose source returns, in two cycles one after the other, two
  readings whose \<open>WT\<close> has no digit; every request succeeds.
\<close>

definition digitless_world :: world where
  "digitless_world =
     \<lparr> replies = [Reply 200 ''A1'' JOther, Reply 200 ''S1'' JOther,
                  Reply 200 [] (JArr [example_reading ''n/a'']),
                  Reply 200 ''A2'' JOther, Reply 200 ''S2'' JOther,
                  Reply 200 [] JNull,
                  Reply 200 [] (JArr [example_reading ''pending'']),
                  Reply 200 [] JNull],
       requests = [], clock = 1700000000000, tzOffset = 0 \<rparr>"

text \<open>
  Claim C10 as stated fails in its last part: the first cycle uploads a reading with key
  0, and the second cycle does not skip the next reading with key 0 but uploads it
  too, because the pruning of the first cycle has removed the key 0.  It also fails for
  a digit run that is not a double: the key of \<open>/Date(9007199254740993)/\<close> is
  9007199254740992.
\<close>

theorem digitless_reading_not_skipped_counterexample:
  "decimal_value ''9007199254740993'' = 9007199254740993 \<and>
   extractTimestamp ''/Date(9007199254740993)/'' = 9007199254740992 \<and>
   extractTimestamp ''n/a'' = 0 \<and> extractTimestamp ''pending'' = 0 \<and>
   success (fst (sync (Dex2ComSyncer example_config) digitless_world)) \<and>
   writeCount (fst (sync (Dex2ComSyncer example_config) digitless_world)) = 1 \<and>
   success (fst (second_cycle (Dex2ComSyncer example_config) digitless_world)) \<and>
   skippedCount (fst (second_cycle (Dex2ComSyncer example_config) digitless_world)) = 0 \<and>
   writeCount (fst (second_cycle (Dex2ComSyncer example_config) digitless_world)) = 1"
  by code_simp


text \<open>An upload that returns has sent at least one request that carries the batch.\<close>

definition uploads :: "egv list \<Rightarrow> world \<Rightarrow> world \<Rightarrow> bool" where
  "uploads egvs w w' =
     (\<exists>before q after. requests w' = requests w @ before @ q # after \<and>
                        posted q = Some egvs)"

lemma uploads_after:
  assumes "evolves P w w1" and "uploads egvs w1 w2"
  shows "uploads egvs w w2"
proof -
  from assms(1) obtain reqs where r: "requests w1 = requests w @ reqs"
    by (auto simp: evolves_def)
  from assms(2) obtain before q after where
    u: "requests w2 = requests w1 @ before @ q # after" "posted q = Some egvs"
    by (auto simp: uploads_def)
  from r u have "requests w2 = requests w @ (reqs @ before) @ q # after" by simp
  with u(2) show ?thesis unfolding uploads_def by blast
qed

lemma uploads_before:
  assumes "uploads egvs w w1" and "evolves P w1 w2"
  shows "uploads egvs w w2"
proof -
  from assms(2) obtain reqs where r: "requests w2 = requests w1 @ reqs"
    by (auto simp: evolves_def)
  from assms(1) obtain before q after where
    u: "requests w1 = requests w @ before @ q # after" "posted q = Some egvs"
    by (auto simp: uploads_def)
  from r u have "requests w2 = requests w @ before @ q # (after @ reqs)" by simp
  with u(2) show ?thesis unfolding uploads_def by blast
qed

lemma writeGlucoseValues_try_uploads:
  assumes "writeGlucoseValues_try c sn egvs w = (r, c1, w1)"
  shows "uploads egvs w w1"
proof -
  obtain rep w0 where mk:
    "makeRequest (PostReceiverEgvRecords (baseUrl c) (sessionId c) sn egvs (- tzOffset w)) w
       = (rep, w0)"
    by (cases "makeRequest (PostReceiverEgvRecords (baseUrl c) (sessionId c) sn egvs
                  (- tzOffset w)) w") auto
  then have req: "requests w0 = requests w @
               [PostReceiverEgvRecords (baseUrl c) (sessionId c) sn egvs (- tzOffset w)]"
    by (auto simp: makeRequest_def split: list.splits)
  have u0: "uploads egvs w w0"
    unfolding uploads_def
  proof (intro exI conjI)
    show "requests w0 = requests w @ [] @
            PostReceiverEgvRecords (baseUrl c) (sessionId c) sn egvs (- tzOffset w) # []"
      using req by simp
    show "posted (PostReceiverEgvRecords (baseUrl c) (sessionId c) sn egvs (- tzOffset w))
            = Some egvs"
      by simp
  qed
  from assms mk have "evolves (\<lambda>q. posted q = None) w0 w1"
    by (auto simp: writeGlucoseValues_try_def Let_def evolves_refl
             split: reply.splits if_splits dest: reauthenticate_evolves)
  with u0 show ?thesis by (rule uploads_before)
qed

lemma writeGlucoseValues_body_uploads:
  assumes "writeGlucoseValues_body c sn egvs w = (Return b, c', w')"
  shows "uploads egvs w w'"
proof -
  from assms obtain u c1 w1 where es: "ensureSession c w = (Inr u, c1, w1)"
    by (auto simp: writeGlucoseValues_body_def split: prod.splits sum.splits)
  obtain r c2 w2 where tr: "writeGlucoseValues_try c1 sn egvs w1 = (r, c2, w2)"
    by (cases "writeGlucoseValues_try c1 sn egvs w1") auto
  have "r = Return b \<and> w2 = w'"
  proof (cases r)
    case (Return x)
    with assms es tr show ?thesis by (simp add: writeGlucoseValues_body_def)
  next
    case (Throw e)
    with assms es tr have "catchSessionError e c2 w2 = (Return b :: bool step, c', w')"
      by (simp add: writeGlucoseValues_body_def)
    then show ?thesis
      by (auto simp: catchSessionError_def reauthenticate_def
               split: if_splits prod.splits sum.splits)
  next
    case Retry
    with assms es tr show ?thesis by (simp add: writeGlucoseValues_body_def)
  qed
  with tr have "uploads egvs w1 w'" by (auto dest: writeGlucoseValues_try_uploads)
  with ensureSession_evolves [OF es] show ?thesis by (rule uploads_after)
qed

lemma writeGlucoseValues_uploads:
  "writeGlucoseValues c sn egvs w = (Inr b, c', w') \<Longrightarrow> uploads egvs w w'"
proof (induction c sn egvs w rule: writeGlucoseValues.induct)
  case (1 c sn egvs w)
  obtain st c1 w1 where bd: "writeGlucoseValues_body c sn egvs w = (st, c1, w1)"
    by (cases "writeGlucoseValues_body c sn egvs w") auto
  show ?case
  proof (cases st)
    case (Return x)
    with bd "1.prems" have "x = b" "w' = w1" by (simp_all add: writeGlucoseValues.simps)
    with bd Return show ?thesis by (auto dest: writeGlucoseValues_body_uploads)
  next
    case (Throw e)
    with bd "1.prems" show ?thesis by (simp add: writeGlucoseValues.simps)
  next
    case Retry
    with bd "1.prems" have "writeGlucoseValues c1 sn egvs w1 = (Inr b, c', w')"
      by (simp add: writeGlucoseValues.simps)
    with "1.IH" [OF bd [symmetric]] Retry have "uploads egvs w1 w'" by simp
    with writeGlucoseValues_body_evolves [OF bd [unfolded Retry]] show ?thesis
      by (rule uploads_after)
  qed
qed

text \<open>
  A cycle that starts without the key of one of the readings it has read counts that
  reading as not skipped, and when it succeeds it has sent an upload that carries it.
\<close>

lemma sync_uploads_unknown:
  assumes rd: "readGlucoseValues (sourceClient s) (readWindow s) (readMaxCount s) w
                 = (Inr readings, src, w1)"
    and res: "sync s w = (res, s', w')"
    and r: "r \<in> set readings"
    and unknown: "\<not> set_has (syncedTimestamps s) (extractTimestamp (WT r))"
  shows "skippedCount res < readCount res \<and>
         (success res \<longrightarrow>
            0 < writeCount res \<and>
            (\<exists>q \<in> set (drop (length (requests w)) (requests w')).
               \<exists>egvs. posted q = Some egvs \<and> toEgv r \<in> set egvs))"
proof -
  let ?old = "filter (\<lambda>r. set_has (syncedTimestamps s) (extractTimestamp (WT r))) readings"
  let ?new = "filter (\<lambda>r. \<not> set_has (syncedTimestamps s) (extractTimestamp (WT r))) readings"
  from r unknown have rn: "r \<in> set ?new" by simp
  from r unknown have ne: "?new \<noteq> []" by (auto simp: filter_empty_conv)
  then have pos: "0 < length ?new" by simp
  have "length ?old + length ?new = length readings"
    by (rule sum_length_filter_compl)
  with pos have lt: "length ?old < length readings" by linarith
  from rd show ?thesis
  proof (cases rule: sync_cases)
    case nothing_new
    with ne show ?thesis by simp
  next
    case (failed e dst w2)
    with res lt show ?thesis by auto
  next
    case (written b dst w2)
    note f = sync_written [OF rd written res]
    from writeGlucoseValues_uploads [OF written(2)]
    have "uploads (map toEgv ?new) w1 w2" .
    with readGlucoseValues_evolves [OF rd] have "uploads (map toEgv ?new) w w2"
      by (rule uploads_after)
    then obtain before q after where
      u: "requests w2 = requests w @ before @ q # after" "posted q = Some (map toEgv ?new)"
      by (auto simp: uploads_def)
    from u(1) f(1) have "q \<in> set (drop (length (requests w)) (requests w'))" by simp
    moreover from rn have "toEgv r \<in> set (map toEgv ?new)" by (simp only: set_map) (rule imageI)
    ultimately have "\<exists>q \<in> set (drop (length (requests w)) (requests w')).
               \<exists>egvs. posted q = Some egvs \<and> toEgv r \<in> set egvs"
      using u(2) by blast
    with f lt pos show ?thesis by simp
  qed
qed

text \<open>
  Claim C10, amended.  The key of a string without a decimal digit is 0, and the key of
  a string with one is what \<open>parseInt\<close> gives for its first (leftmost, longest) run of
  digits: the decimal value of the run as a Number, which is that value exactly when
  it is below \<open>2^53\<close>.  So all readings whose \<open>WT\<close> lacks digits have the key 0.  The
  key 0 does not outlive a cycle that uploads readings once the clock is 24 hours past
  the epoch: after such a cycle it is not in the set, and a later cycle that reads a
  reading without digits does not skip it but, when it succeeds, uploads it again.
\<close>

theorem extractTimestamp_first_digit_run:
  "((\<forall>ch \<in> set str. \<not> isDigit ch) \<longrightarrow> extractTimestamp str = 0) \<and>
   ((\<forall>ch \<in> set pre. \<not> isDigit ch) \<and> ds \<noteq> [] \<and> (\<forall>ch \<in> set ds. isDigit ch) \<and>
    (post = [] \<or> \<not> isDigit (hd post)) \<longrightarrow>
      extractTimestamp (pre @ ds @ post) = toNumber (decimal_value ds) \<and>
      (decimal_value ds < 2 ^ 53 \<longrightarrow>
         extractTimestamp (pre @ ds @ post) = decimal_value ds)) \<and>
   (sync s w = (res, s', w') \<and> success res \<and> 0 < writeCount res \<and>
    24 * 60 * 60 * 1000 \<le> clock w' \<longrightarrow>
      \<not> set_has (syncedTimestamps s') 0 \<and>
      (\<forall>w2 readings src2 wr2 res2 s2 w3 r.
         readGlucoseValues (sourceClient s') (readWindow s') (readMaxCount s') w2
           = (Inr readings, src2, wr2) \<and>
         sync s' w2 = (res2, s2, w3) \<and>
         r \<in> set readings \<and> (\<forall>ch \<in> set (WT r). \<not> isDigit ch) \<longrightarrow>
           skippedCount res2 < readCount res2 \<and>
           (success res2 \<longrightarrow>
              0 < writeCount res2 \<and>
              (\<exists>q \<in> set (drop (length (requests w2)) (requests w3)).
                 \<exists>egvs. posted q = Some egvs \<and> toEgv r \<in> set egvs))))"
proof (intro conjI impI allI)
  assume "\<forall>ch \<in> set str. \<not> isDigit ch"
  then show "extractTimestamp str = 0" by (rule extractTimestamp_no_digit)
next
  assume a: "(\<forall>ch \<in> set pre. \<not> isDigit ch) \<and> ds \<noteq> [] \<and> (\<forall>ch \<in> set ds. isDigit ch) \<and>
          (post = [] \<or> \<not> isDigit (hd post))"
  then show e: "extractTimestamp (pre @ ds @ post) = toNumber (decimal_value ds)"
    using extractTimestamp_digit_run [of pre ds post] by simp
  assume "decimal_value ds < 2 ^ 53"
  with e show "extractTimestamp (pre @ ds @ post) = decimal_value ds"
    by (simp add: toNumber_exact)
next
  assume a: "sync s w = (res, s', w') \<and> success res \<and> 0 < writeCount res \<and>
             24 * 60 * 60 * 1000 \<le> clock w'"
  then have "\<forall>k \<in> set (syncedTimestamps s'). clock w' - 24 * 60 * 60 * 1000 < k"
    using sync_uploaded_pruned [of s w res s' w'] by simp
  with a show z: "\<not> set_has (syncedTimestamps s') 0"
    by (auto simp: set_has_def)
  fix w2 readings src2 wr2 res2 s2 w3 r
  assume b: "readGlucoseValues (sourceClient s') (readWindow s') (readMaxCount s') w2
           = (Inr readings, src2, wr2) \<and>
         sync s' w2 = (res2, s2, w3) \<and>
         r \<in> set readings \<and> (\<forall>ch \<in> set (WT r). \<not> isDigit ch)"
  then have "extractTimestamp (WT r) = 0" by (simp add: extractTimestamp_no_digit)
  with z have "\<not> set_has (syncedTimestamps s') (extractTimestamp (WT r))" by simp
  with b have c: "skippedCount res2 < readCount res2 \<and>
           (success res2 \<longrightarrow>
              0 < writeCount res2 \<and>
              (\<exists>q \<in> set (drop (length (requests w2)) (requests w3)).
                 \<exists>egvs. posted q = Some egvs \<and> toEgv r \<in> set egvs))"
    using sync_uploads_unknown [of s' w2 readings src2 wr2 res2 s2 w3 r] by blast
  from c show "skippedCount res2 < readCount res2" by simp
  assume "success res2"
  with c show "0 < writeCount res2" by simp
  from c \<open>success res2\<close>
  show "\<exists>q \<in> set (drop (length (requests w2)) (requests w3)).
          \<exists>egvs. posted q = Some egvs \<and> toEgv r \<in> set egvs"
    by simp
qed


theorem extractTimestamp_first_digit_run_witness:
  "extractTimestamp ''n/a'' = 0 \<and>
   extractTimestamp (''/Date('' @ ''1700000000000'' @ '')/'') = 1700000000000 \<and>
   extractTimestamp (''/Date('' @ ''9007199254740993'' @ '')/'') = 9007199254740992 \<and>
   \<not> set_has (syncedTimestamps
                (fst (snd (sync (Dex2ComSyncer example_config) digitless_world)))) 0 \<and>
   skippedCount (fst (second_cycle (Dex2ComSyncer example_config) digitless_world))
     < readCount (fst (second_cycle (Dex2ComSyncer example_config) digitless_world)) \<and>
   0 < writeCount (fst (second_cycle (Dex2ComSyncer example_config) digitless_world))"
proof -
  let ?s = "Dex2ComSyncer example_config" and ?w = digitless_world
  let ?s1 = "fst (snd (sync ?s ?w))" and ?w1 = "snd (snd (sync ?s ?w))"
  let ?rd2 = "readGlucoseValues (sourceClient ?s1) (readWindow ?s1) (readMaxCount ?s1) ?w1"
  let ?c2 = "sync ?s1 ?w1"
  have nd: "\<forall>ch \<in> set ''n/a''. \<not> isDigit ch" by (simp add: isDigit_def)
  have pre: "\<forall>ch \<in> set ''/Date(''. \<not> isDigit ch" by (simp add: isDigit_def)
  have ds: "\<forall>ch \<in> set ''1700000000000''. isDigit ch" by (simp add: isDigit_def)
  have ds': "\<forall>ch \<in> set ''9007199254740993''. isDigit ch" by (simp add: isDigit_def)
  have post: "'')/'' = [] \<or> \<not> isDigit (hd '')/'')" by (simp add: isDigit_def)
  have dv: "decimal_value ''1700000000000'' = 1700000000000" by code_simp
  have small: "decimal_value ''1700000000000'' < 2 ^ 53" by code_simp
  have big: "toNumber (decimal_value ''9007199254740993'') = 9007199254740992" by code_simp
  have sy: "sync ?s ?w = (fst (sync ?s ?w), ?s1, ?w1)" by simp
  have ok: "success (fst (sync ?s ?w))" by code_simp
  have wc: "0 < writeCount (fst (sync ?s ?w))" by code_simp
  have cl: "24 * 60 * 60 * 1000 \<le> clock ?w1" by code_simp
  have rd2: "?rd2 = (Inr [example_reading ''pending''], fst (snd ?rd2), snd (snd ?rd2))"
    by code_simp
  have sy2: "?c2 = (fst ?c2, fst (snd ?c2), snd (snd ?c2))" by simp
  have mem: "example_reading ''pending'' \<in> set [example_reading ''pending'']" by simp
  have nd2: "\<forall>ch \<in> set (WT (example_reading ''pending'')). \<not> isDigit ch"
    by (simp add: example_reading_def isDigit_def)
  have ok2: "success (fst ?c2)" by code_simp
  note t = extractTimestamp_first_digit_run
  from t [of "''n/a''", THEN conjunct1] nd
  have a: "extractTimestamp ''n/a'' = 0" by blast
  from t [where pre = "''/Date(''" and ds = "''1700000000000''" and post = "'')/''",
          THEN conjunct2, THEN conjunct1] pre ds post small
  have "extractTimestamp (''/Date('' @ ''1700000000000'' @ '')/'')
          = decimal_value ''1700000000000''"
    by blast
  with dv have b: "extractTimestamp (''/Date('' @ ''1700000000000'' @ '')/'') = 1700000000000"
    by simp
  from t [where pre = "''/Date(''" and ds = "''9007199254740993''" and post = "'')/''",
          THEN conjunct2, THEN conjunct1] pre ds' post
  have "extractTimestamp (''/Date('' @ ''9007199254740993'' @ '')/'')
          = toNumber (decimal_value ''9007199254740993'')"
    by blast
  with big have b': "extractTimestamp (''/Date('' @ ''9007199254740993'' @ '')/'')
                       = 9007199254740992"
    by simp
  from t [where s = ?s and w = ?w and res = "fst (sync ?s ?w)" and s' = ?s1 and w' = ?w1,
          THEN conjunct2, THEN conjunct2] sy ok wc cl
  have c3: "\<not> set_has (syncedTimestamps ?s1) 0 \<and>
      (\<forall>w2 readings src2 wr2 res2 s2 w3 r.
         readGlucoseValues (sourceClient ?s1) (readWindow ?s1) (readMaxCount ?s1) w2
           = (Inr readings, src2, wr2) \<and>
         sync ?s1 w2 = (res2, s2, w3) \<and>
         r \<in> set readings \<and> (\<forall>ch \<in> set (WT r). \<not> isDigit ch) \<longrightarrow>
           skippedCount res2 < readCount res2 \<and>
           (success res2 \<longrightarrow>
              0 < writeCount res2 \<and>
              (\<exists>q \<in> set (drop (length (requests w2)) (requests w3)).
                 \<exists>egvs. posted q = Some egvs \<and> toEgv r \<in> set egvs)))"
    by blast
  from c3 [THEN conjunct2, rule_format,
           of ?w1 "[example_reading ''pending'']" "fst (snd ?rd2)" "snd (snd ?rd2)"
              "fst ?c2" "fst (snd ?c2)" "snd (snd ?c2)" "example_reading ''pending''"]
    rd2 sy2 mem nd2
  have d: "skippedCount (fst ?c2) < readCount (fst ?c2) \<and>
           (success (fst ?c2) \<longrightarrow> 0 < writeCount (fst ?c2) \<and>
              (\<exists>q \<in> set (drop (length (requests ?w1)) (requests (snd (snd ?c2)))).
                 \<exists>egvs. posted q = Some egvs \<and>
                         toEgv (example_reading ''pending'') \<in> set egvs))"
    by blast
  have sc: "second_cycle ?s ?w = ?c2" by (simp add: second_cycle_def case_prod_beta)
  from a b b' c3 d ok2 show ?thesis unfolding sc by blast
qed

subsection \<open>Readings that are already synced\<close>

lemma sync_evolves:
  assumes rd: "readGlucoseValues (sourceClient s) (readWindow s) (readMaxCount s) w
                 = (Inr readings, src, w1)"
    and res: "sync s w = (res, s', w')"
  shows "evolves (\<lambda>q. posted q = None \<or>
                      posted q = Some (map toEgv
                        (filter (\<lambda>r. \<not> set_has (syncedTimestamps s)
                                           (extractTimestamp (WT r))) readings))) w w'"
proof -
  let ?P = "\<lambda>q. posted q = None \<or>
                posted q = Some (map toEgv
                  (filter (\<lambda>r. \<not> set_has (syncedTimestamps s)
                                     (extractTimestamp (WT r))) readings))"
  have e1: "evolves ?P w w1"
    using readGlucoseValues_evolves [OF rd] by (rule evolves_weaken) simp
  from rd show ?thesis
  proof (cases rule: sync_cases)
    case nothing_new
    with res have "w' = w1" by auto
    with e1 show ?thesis by simp
  next
    case (failed e dst w2)
    with res have "w' = w2" by auto
    with writeGlucoseValues_evolves [OF failed(2)] e1 show ?thesis
      by (auto intro: evolves_trans)
  next
    case (written b dst w2)
    from sync_written(1) [OF rd written res] have "w' = w2" .
    with writeGlucoseValues_evolves [OF written(2)] e1 show ?thesis
      by (auto intro: evolves_trans)
  qed
qed

lemma filter_all: "(\<forall>x \<in> set xs. P x) \<Longrightarrow> filter P xs = xs"
  by (induction xs) auto

lemma sync_all_known:
  assumes rd: "readGlucoseValues (sourceClient s) (readWindow s) (readMaxCount s) w
                 = (Inr readings, src, w1)"
    and known: "\<forall>r \<in> set readings. set_has (syncedTimestamps s) (extractTimestamp (WT r))"
  shows "sync s w =
           (\<lparr> success = True, readCount = length readings, writeCount = 0,
              skippedCount = length readings, errors = [] \<rparr>,
            s\<lparr>sourceClient := src\<rparr>, w1)"
proof -
  from known have
    "filter (\<lambda>r. \<not> set_has (syncedTimestamps s) (extractTimestamp (WT r))) readings = []"
    by (auto simp: filter_empty_conv)
  with rd show ?thesis by (cases rule: sync_cases) auto
qed

text \<open>
  Claim C1, amended.  In every cycle whose read succeeds, the readings whose key is in
  the set of synced timestamps at the start of the cycle are counted in
  \<open>skippedCount\<close>, and every upload request of the cycle carries exactly the other
  readings, in their order.  When the cycle succeeds, \<open>writeCount\<close> is the number of
  those other readings; if there are none the set is unchanged, and otherwise their keys
  are added and the set is then pruned: it holds the old and the new keys that are
  greater than \<open>Date.now() - 24h\<close>.  For five readings with keys 100, 200, 300, 400,
  500 and the set \<open>{100, 200}\<close>: \<open>readCount = 5\<close>, \<open>skippedCount = 2\<close>, and on
  success \<open>writeCount = 3\<close> and the set holds those of the five keys that are greater
  than \<open>Date.now() - 24h\<close>.
\<close>

theorem sync_dedup:
  assumes rd: "readGlucoseValues (sourceClient s) (readWindow s) (readMaxCount s) w
                 = (Inr readings, src, w1)"
    and res: "sync s w = (res, s', w')"
  shows
    "readCount res = length readings \<and>
     skippedCount res =
       length (filter (\<lambda>r. set_has (syncedTimestamps s) (extractTimestamp (WT r))) readings) \<and>
     (\<exists>reqs. requests w' = requests w @ reqs \<and>
        (\<forall>q \<in> set reqs.
           posted q = None \<or>
           posted q = Some (map toEgv
             (filter (\<lambda>r. \<not> set_has (syncedTimestamps s) (extractTimestamp (WT r)))
                readings)))) \<and>
     (success res \<longrightarrow>
        writeCount res =
          length (filter (\<lambda>r. \<not> set_has (syncedTimestamps s) (extractTimestamp (WT r)))
                    readings) \<and>
        set (syncedTimestamps s') =
          (if filter (\<lambda>r. \<not> set_has (syncedTimestamps s) (extractTimestamp (WT r)))
                readings = []
           then set (syncedTimestamps s)
           else {k \<in> set (syncedTimestamps s) \<union>
                      (\<lambda>r. extractTimestamp (WT r)) `
                        {r \<in> set readings. \<not> set_has (syncedTimestamps s)
                                               (extractTimestamp (WT r))}.
                 clock w - 24 * 60 * 60 * 1000 < k})) \<and>
     (map (\<lambda>r. extractTimestamp (WT r)) readings = [100, 200, 300, 400, 500] \<and>
      set (syncedTimestamps s) = {100, 200} \<longrightarrow>
        readCount res = 5 \<and> skippedCount res = 2 \<and>
        (success res \<longrightarrow>
           writeCount res = 3 \<and>
           set (syncedTimestamps s') =
             {k \<in> {100, 200, 300, 400, 500}. clock w - 24 * 60 * 60 * 1000 < k}))"
proof -
  let ?key = "\<lambda>r. extractTimestamp (WT r)"
  let ?L = "syncedTimestamps s"
  let ?old = "filter (\<lambda>r. set_has ?L (?key r)) readings"
  let ?new = "filter (\<lambda>r. \<not> set_has ?L (?key r)) readings"
  let ?pruned = "{k \<in> set ?L \<union> ?key ` {r \<in> set readings. \<not> set_has ?L (?key r)}.
                   clock w - 24 * 60 * 60 * 1000 < k}"
  have ev: "evolves (\<lambda>q. posted q = None \<or> posted q = Some (map toEgv ?new)) w w'"
    using rd res by (rule sync_evolves)
  then have reqs: "\<exists>reqs. requests w' = requests w @ reqs \<and>
        (\<forall>q \<in> set reqs. posted q = None \<or> posted q = Some (map toEgv ?new))"
    by (simp add: evolves_def)
  have main: "readCount res = length readings \<and> skippedCount res = length ?old \<and>
              (success res \<longrightarrow> writeCount res = length ?new \<and>
                 set (syncedTimestamps s') = (if ?new = [] then set ?L else ?pruned))"
    using rd
  proof (cases rule: sync_cases)
    case nothing_new
    then have "\<forall>r \<in> set readings. set_has ?L (?key r)"
      by (auto simp: filter_empty_conv)
    then have "?old = readings" by (rule filter_all)
    with nothing_new res show ?thesis by auto
  next
    case (failed e dst w2)
    with res show ?thesis by auto
  next
    case (written b dst w2)
    note f = sync_written [OF rd written res]
    from ev f(1) have "clock w2 = clock w" by (simp add: evolves_def)
    with f written(1) show ?thesis by simp
  qed
  have scen: "readCount res = 5 \<and> skippedCount res = 2 \<and>
        (success res \<longrightarrow>
           writeCount res = 3 \<and>
           set (syncedTimestamps s') =
             {k \<in> {100, 200, 300, 400, 500}. clock w - 24 * 60 * 60 * 1000 < k})"
    if keys: "map ?key readings = [100, 200, 300, 400, 500]"
      and led: "set ?L = {100, 200}"
  proof -
    have len: "length readings = 5"
      using arg_cong [OF keys, of length] by simp
    have mo: "map ?key ?old = filter (\<lambda>k. k \<in> set ?L) (map ?key readings)"
      by (simp add: filter_map comp_def set_has_def)
    have mn: "map ?key ?new = filter (\<lambda>k. k \<notin> set ?L) (map ?key readings)"
      by (simp add: filter_map comp_def set_has_def)
    from mo have mo': "map ?key ?old = [100, 200]" by (simp add: keys led)
    from mn have mn': "map ?key ?new = [300, 400, 500]" by (simp add: keys led)
    have lo: "length ?old = 2" using arg_cong [OF mo', of length] by simp
    have ln: "length ?new = 3" using arg_cong [OF mn', of length] by simp
    from ln have ne: "?new \<noteq> []" by auto
    have "?key ` {r \<in> set readings. \<not> set_has ?L (?key r)} = set (map ?key ?new)"
      by auto
    also have "\<dots> = {300, 400, 500}" by (simp only: mn') simp
    finally have img: "?key ` {r \<in> set readings. \<not> set_has ?L (?key r)} = {300, 400, 500}" .
    have "?pruned = {k \<in> {100, 200, 300, 400, 500}. clock w - 24 * 60 * 60 * 1000 < k}"
      unfolding img led by auto
    with main len lo ln ne show ?thesis by simp
  qed
  have scen': "map ?key readings = [100, 200, 300, 400, 500] \<and> set ?L = {100, 200} \<longrightarrow>
        readCount res = 5 \<and> skippedCount res = 2 \<and>
        (success res \<longrightarrow>
           writeCount res = 3 \<and>
           set (syncedTimestamps s') =
             {k \<in> {100, 200, 300, 400, 500}. clock w - 24 * 60 * 60 * 1000 < k})"
    by (intro impI, elim conjE, rule scen)
  from main reqs scen' show ?thesis
    by (elim conjE, intro conjI) assumption+
qed


text \<open>
  The scenario of the spec: five readings with keys 100 to 500, the set holding 100
  and 200, every request succeeding; the clock is a parameter.
\<close>

definition scenario_syncer :: syncer where
  "scenario_syncer = (Dex2ComSyncer example_config)\<lparr>syncedTimestamps := [100, 200]\<rparr>"

definition scenario_readings :: "reading list" where
  "scenario_readings =
     map example_reading
       [''/Date(100)/'', ''/Date(200)/'', ''/Date(300)/'', ''/Date(400)/'', ''/Date(500)/'']"

definition scenario_world :: "int \<Rightarrow> world" where
  "scenario_world now =
     \<lparr> replies = [Reply 200 ''A1'' JOther, Reply 200 ''S1'' JOther,
                  Reply 200 [] (JArr scenario_readings),
                  Reply 200 ''A2'' JOther, Reply 200 ''S2'' JOther,
                  Reply 200 [] JNull],
       requests = [], clock = now, tzOffset = 0 \<rparr>"

text \<open>
  Claim C1 as stated fails in its last part: at a present-day clock the cycle of the
  scenario succeeds with \<open>writeCount = 3\<close>, and the set it leaves holds none of the
  three new keys (it is empty), because the cycle prunes after it has added them.
\<close>

theorem scenario_keys_pruned_counterexample:
  "map (\<lambda>r. extractTimestamp (WT r)) scenario_readings = [100, 200, 300, 400, 500] \<and>
   syncedTimestamps scenario_syncer = [100, 200] \<and>
   fst (sync scenario_syncer (scenario_world 1700000000000)) =
     \<lparr> success = True, readCount = 5, writeCount = 3, skippedCount = 2, errors = [] \<rparr> \<and>
   syncedTimestamps (fst (snd (sync scenario_syncer (scenario_world 1700000000000)))) = []"
  by code_simp

theorem sync_dedup_witness:
  "readCount (fst (sync scenario_syncer (scenario_world 86400050))) = 5 \<and>
   skippedCount (fst (sync scenario_syncer (scenario_world 86400050))) = 2 \<and>
   writeCount (fst (sync scenario_syncer (scenario_world 86400050))) = 3 \<and>
   set (syncedTimestamps (fst (snd (sync scenario_syncer (scenario_world 86400050))))) =
     {100, 200, 300, 400, 500}"
proof -
  let ?s = scenario_syncer and ?w = "scenario_world 86400050"
  let ?rd = "readGlucoseValues (sourceClient ?s) (readWindow ?s) (readMaxCount ?s) ?w"
  have rd: "?rd = (Inr scenario_readings, fst (snd ?rd), snd (snd ?rd))"
    by code_simp
  have res: "sync ?s ?w = (fst (sync ?s ?w), fst (snd (sync ?s ?w)), snd (snd (sync ?s ?w)))"
    by simp
  have keys: "map (\<lambda>r. extractTimestamp (WT r)) scenario_readings = [100, 200, 300, 400, 500]"
    by code_simp
  have led: "set (syncedTimestamps ?s) = {100, 200}"
    by (simp add: scenario_syncer_def)
  have ok: "success (fst (sync ?s ?w))" by code_simp
  have cl: "clock ?w = 86400050" by (simp add: scenario_world_def)
  have all: "{k \<in> {100, 200, 300, 400, 500}. 86400050 - 24 * 60 * 60 * 1000 < k} =
             {100, 200, 300, 400, 500 :: int}"
    by auto
  from sync_dedup [OF rd res] keys led ok
  have "readCount (fst (sync ?s ?w)) = 5 \<and> skippedCount (fst (sync ?s ?w)) = 2 \<and>
        writeCount (fst (sync ?s ?w)) = 3 \<and>
        set (syncedTimestamps (fst (snd (sync ?s ?w)))) =
          {k \<in> {100, 200, 300, 400, 500}. clock ?w - 24 * 60 * 60 * 1000 < k}"
    by blast
  then show ?thesis unfolding cl all .
qed

subsection \<open>Two cycles on the same source data\<close>

text \<open>
  A present-day world whose source returns the same two readings in two cycles one
  after the other; every request succeeds.  The readings are 25 and 26 hours old in
  \<open>stale_world\<close> (read with a window of 30 hours) and at most five minutes old in
  \<open>fresh_world\<close>.
\<close>

definition two_cycle_world :: "reading list \<Rightarrow> world" where
  "two_cycle_world readings =
     \<lparr> replies = [Reply 200 ''A1'' JOther, Reply 200 ''S1'' JOther,
                  Reply 200 [] (JArr readings),
                  Reply 200 ''A2'' JOther, Reply 200 ''S2'' JOther,
                  Reply 200 [] JNull,
                  Reply 200 [] (JArr readings),
                  Reply 200 [] JNull],
       requests = [], clock = 1700000000000, tzOffset = 0 \<rparr>"

definition stale_world :: world where
  "stale_world =
     two_cycle_world [example_reading ''/Date(1699910000000)/'',
                      example_reading ''/Date(1699906400000)/'']"

definition fresh_world :: world where
  "fresh_world =
     two_cycle_world [example_reading ''/Date(1700000000000)/'',
                      example_reading ''/Date(1699999700000)/'']"

text \<open>
  Claim C7 as stated fails: with readings older than 24 hours the first cycle succeeds
  and uploads both, and the second cycle on the same data uploads both again.
\<close>

theorem second_cycle_uploads_again_counterexample:
  "fst (sync old_reading_syncer stale_world) =
     \<lparr> success = True, readCount = 2, writeCount = 2, skippedCount = 0, errors = [] \<rparr> \<and>
   fst (second_cycle old_reading_syncer stale_world) =
     \<lparr> success = True, readCount = 2, writeCount = 2, skippedCount = 0, errors = [] \<rparr>"
  by code_simp

text \<open>
  Claim C7, amended.  When a cycle has read a dataset all of whose keys are greater than
  \<open>Date.now() - 24h\<close> and has succeeded, a following cycle that reads the same
  dataset skips every reading: \<open>writeCount = 0\<close>, \<open>skippedCount = readCount\<close>, and
  the cycle ends in the world its read left, without an upload.
\<close>

theorem second_cycle_writes_nothing:
  assumes c1: "sync s w = (res1, s1, w1)" and ok1: "success res1"
    and rd1: "readGlucoseValues (sourceClient s) (readWindow s) (readMaxCount s) w
                = (Inr readings, src, wr)"
    and fresh: "\<forall>r \<in> set readings. clock w - 24 * 60 * 60 * 1000 < extractTimestamp (WT r)"
    and rd2: "readGlucoseValues (sourceClient s1) (readWindow s1) (readMaxCount s1) w2
                = (Inr readings, src2, wr2)"
  shows "sync s1 w2 =
           (\<lparr> success = True, readCount = length readings, writeCount = 0,
              skippedCount = length readings, errors = [] \<rparr>,
            s1\<lparr>sourceClient := src2\<rparr>, wr2)"
proof -
  have known: "\<forall>r \<in> set readings. set_has (syncedTimestamps s1) (extractTimestamp (WT r))"
    using rd1
  proof (cases rule: sync_cases)
    case nothing_new
    from nothing_new(2) c1 have "syncedTimestamps s1 = syncedTimestamps s" by auto
    with nothing_new(1) show ?thesis by (auto simp: filter_empty_conv)
  next
    case (failed e dst w')
    with c1 ok1 show ?thesis by auto
  next
    case (written b dst w')
    note f = sync_written [OF rd1 written c1]
    from sync_evolves [OF rd1 c1] have "clock w1 = clock w" by (simp add: evolves_def)
    with f(1) have cl: "clock w' = clock w" by simp
    show ?thesis
    proof
      fix r assume r: "r \<in> set readings"
      with fresh have "clock w - 24 * 60 * 60 * 1000 < extractTimestamp (WT r)" by blast
      moreover from r have "extractTimestamp (WT r) \<in> set (syncedTimestamps s) \<union>
          (\<lambda>r. extractTimestamp (WT r)) `
            {r \<in> set readings. \<not> set_has (syncedTimestamps s) (extractTimestamp (WT r))}"
        by (auto simp: set_has_def)
      ultimately have "extractTimestamp (WT r) \<in> set (syncedTimestamps s1)"
        unfolding f(7) cl by blast
      then show "set_has (syncedTimestamps s1) (extractTimestamp (WT r))"
        by (simp add: set_has_def)
    qed
  qed
  with rd2 show ?thesis by (rule sync_all_known)
qed

theorem second_cycle_writes_nothing_witness:
  "fst (second_cycle (Dex2ComSyncer example_config) fresh_world) =
     \<lparr> success = True, readCount = 2, writeCount = 0, skippedCount = 2, errors = [] \<rparr>"
proof -
  let ?s = "Dex2ComSyncer example_config" and ?w = fresh_world
  let ?rs = "[example_reading ''/Date(1700000000000)/'',
              example_reading ''/Date(1699999700000)/'']"
  let ?s1 = "fst (snd (sync ?s ?w))" and ?w1 = "snd (snd (sync ?s ?w))"
  let ?rd1 = "readGlucoseValues (sourceClient ?s) (readWindow ?s) (readMaxCount ?s) ?w"
  let ?rd2 = "readGlucoseValues (sourceClient ?s1) (readWindow ?s1) (readMaxCount ?s1) ?w1"
  have c1: "sync ?s ?w = (fst (sync ?s ?w), ?s1, ?w1)" by simp
  have ok1: "success (fst (sync ?s ?w))" by code_simp
  have rd1: "?rd1 = (Inr ?rs, fst (snd ?rd1), snd (snd ?rd1))" by code_simp
  have fresh: "\<forall>r \<in> set ?rs. clock ?w - 24 * 60 * 60 * 1000 < extractTimestamp (WT r)"
    by code_simp
  have rd2: "?rd2 = (Inr ?rs, fst (snd ?rd2), snd (snd ?rd2))" by code_simp
  from second_cycle_writes_nothing [OF c1 ok1 rd1 fresh rd2]
  have "fst (sync ?s1 ?w1) =
          \<lparr> success = True, readCount = 2, writeCount = 0, skippedCount = 2, errors = [] \<rparr>"
    by simp
  then show ?thesis by (simp add: second_cycle_def case_prod_beta)
qed


section \<open>The daemon loop in time\<close>

text \<open>
  \<open>runDaemon\<close> awaits the registration and the first cycle, computes
  \<open>intervalMs = intervalMinutes * 60 * 1000\<close> and hands
  \<open>async () => { await this.sync(); }\<close> to \<open>setInterval\<close>.  Time is in
  milliseconds.  The timer is set up at time \<open>t0\<close>, when the first cycle has ended;
  its \<open>k\<close>-th tick (\<open>k = 1, 2, ...\<close>) is at \<open>t0 + k * delay\<close>, where the delay is
  the interval as \<open>setInterval\<close> takes it: a delay below 1 or above \<open>2^31 - 1\<close>
  is 1.  Each tick calls \<open>sync\<close> whatever the state of the calls before it; nothing in
  \<open>runDaemon\<close> or \<open>sync\<close> records that a cycle is running.  How long a cycle runs
  is up to the remote services: \<open>dur k\<close> is the duration of cycle \<open>k\<close>, cycle 0 being
  the first, awaited one.
\<close>

definition intervalMs :: "int \<Rightarrow> int" where
  "intervalMs intervalMinutes = intervalMinutes * 60 * 1000"

definition timerDelay :: "int \<Rightarrow> int" where
  "timerDelay ms = (if ms < 1 \<or> 2147483647 < ms then 1 else ms)"

definition cycleStart :: "int \<Rightarrow> int \<Rightarrow> (nat \<Rightarrow> int) \<Rightarrow> nat \<Rightarrow> int" where
  "cycleStart t0 intervalMinutes dur k =
     (if k = 0 then t0 - dur 0
      else t0 + int k * timerDelay (intervalMs intervalMinutes))"

text \<open>Cycle \<open>k\<close> is in flight at time \<open>t\<close>: it has started and has not ended.\<close>

definition inFlight :: "int \<Rightarrow> int \<Rightarrow> (nat \<Rightarrow> int) \<Rightarrow> nat \<Rightarrow> int \<Rightarrow> bool" where
  "inFlight t0 intervalMinutes dur k t =
     (cycleStart t0 intervalMinutes dur k \<le> t \<and>
      t < cycleStart t0 intervalMinutes dur k + dur k)"

text \<open>The cycles among the first \<open>n\<close> that are in flight at time \<open>t\<close>.\<close>

definition cyclesInFlight :: "int \<Rightarrow> int \<Rightarrow> (nat \<Rightarrow> int) \<Rightarrow> nat \<Rightarrow> int \<Rightarrow> nat list" where
  "cyclesInFlight t0 intervalMinutes dur n t =
     filter (\<lambda>k. inFlight t0 intervalMinutes dur k t) [0..<n]"

lemma timerDelay_pos: "0 < timerDelay ms"
  by (simp add: timerDelay_def)

lemma filter_upt_at_most_one:
  assumes "\<And>i j. P i \<Longrightarrow> P j \<Longrightarrow> i = j"
  shows "length (filter P [0..<n]) \<le> 1"
proof (induction n)
  case 0
  show ?case by simp
next
  case (Suc n)
  show ?case
  proof (cases "P n")
    case False
    with Suc show ?thesis by simp
  next
    case True
    have "filter P [0..<n] = []"
    proof (rule ccontr)
      assume "filter P [0..<n] \<noteq> []"
      then obtain i where "i \<in> set (filter P [0..<n])" by (cases "filter P [0..<n]") auto
      then have "P i" "i < n" by auto
      with True assms [of i n] show False by auto
    qed
    with True show ?thesis by simp
  qed
qed

lemma cycleStart_mono:
  assumes "i < j"
  shows "cycleStart t0 m dur i + (if i = 0 then dur 0 else timerDelay (intervalMs m))
           \<le> cycleStart t0 m dur j"
proof -
  let ?d = "timerDelay (intervalMs m)"
  have d: "0 < ?d" by (rule timerDelay_pos)
  from assms have j: "0 < j" by simp
  show ?thesis
  proof (cases "i = 0")
    case True
    from j d have "0 \<le> int j * ?d" by simp
    with True j show ?thesis by (simp add: cycleStart_def)
  next
    case False
    from assms have "int i + 1 \<le> int j" by simp
    with d have "(int i + 1) * ?d \<le> int j * ?d" by (intro mult_right_mono) simp_all
    with False j show ?thesis by (simp add: cycleStart_def algebra_simps)
  qed
qed

lemma no_overlap_pair:
  assumes short: "\<forall>k \<ge> 1. dur k \<le> timerDelay (intervalMs m)"
    and i: "inFlight t0 m dur i t" and j: "inFlight t0 m dur j t"
  shows "i = j"
proof (rule ccontr)
  assume ne: "i \<noteq> j"
  have aux: False if lt: "a < b" and a: "inFlight t0 m dur a t" and b: "inFlight t0 m dur b t"
    for a b
  proof -
    have "cycleStart t0 m dur a + dur a \<le> cycleStart t0 m dur b"
    proof (cases "a = 0")
      case True
      with cycleStart_mono [OF lt, of t0 m dur] show ?thesis by simp
    next
      case False
      with short have "dur a \<le> timerDelay (intervalMs m)" by simp
      with cycleStart_mono [OF lt, of t0 m dur] False show ?thesis by simp
    qed
    with a b show False by (simp add: inFlight_def)
  qed
  from ne have "i < j \<or> j < i" by auto
  with aux i j show False by blast
qed

text \<open>
  Claim C4 as stated fails: with the default interval of five minutes and cycles that
  each run for 400 seconds (the requests have no timeout), the cycles started by the
  first and the second tick are both in flight 650 seconds after the timer was set up.
\<close>

theorem daemon_cycles_overlap_counterexample:
  "intervalMs 5 = 300000 \<and>
   cyclesInFlight 0 5 (\<lambda>k. 400000) 3 650000 = [1, 2]"
  by code_simp

text \<open>
  Claim C4, amended.  The first cycle is awaited before the timer is set up; after that
  a cycle starts at every tick of the fixed-rate timer, whether or not an earlier one is
  still running.  So, for cycles that take time, at most one cycle is in flight at any
  time exactly when every cycle that a tick has started ends within one timer interval;
  a cycle that runs longer is still in flight when the next tick starts the next one.
\<close>

theorem daemon_non_overlap_iff:
  assumes pos: "\<forall>k. 0 < dur k"
  shows "(\<forall>n t. length (cyclesInFlight t0 intervalMinutes dur n t) \<le> 1) \<longleftrightarrow>
         (\<forall>k \<ge> 1. dur k \<le> timerDelay (intervalMs intervalMinutes))"
proof
  assume short: "\<forall>k \<ge> 1. dur k \<le> timerDelay (intervalMs intervalMinutes)"
  show "\<forall>n t. length (cyclesInFlight t0 intervalMinutes dur n t) \<le> 1"
    unfolding cyclesInFlight_def
    by (intro allI filter_upt_at_most_one) (rule no_overlap_pair [OF short])
next
  assume one: "\<forall>n t. length (cyclesInFlight t0 intervalMinutes dur n t) \<le> 1"
  show "\<forall>k \<ge> 1. dur k \<le> timerDelay (intervalMs intervalMinutes)"
  proof (intro allI impI, rule ccontr)
    fix k :: nat
    let ?d = "timerDelay (intervalMs intervalMinutes)"
    let ?t = "cycleStart t0 intervalMinutes dur (Suc k)"
    assume k: "1 \<le> k" and "\<not> dur k \<le> ?d"
    then have long: "?d < dur k" by simp
    from k have st: "?t = cycleStart t0 intervalMinutes dur k + ?d"
      by (simp add: cycleStart_def algebra_simps)
    from timerDelay_pos [of "intervalMs intervalMinutes"] st long
    have a: "inFlight t0 intervalMinutes dur k ?t" by (simp add: inFlight_def)
    from pos have b: "inFlight t0 intervalMinutes dur (Suc k) ?t" by (simp add: inFlight_def)
    have "[0..<Suc (Suc k)] = [0..<k] @ [k, Suc k]" by simp
    then have "cyclesInFlight t0 intervalMinutes dur (Suc (Suc k)) ?t =
                 filter (\<lambda>i. inFlight t0 intervalMinutes dur i ?t) [0..<k] @ [k, Suc k]"
      unfolding cyclesInFlight_def using a b by simp
    then have "2 \<le> length (cyclesInFlight t0 intervalMinutes dur (Suc (Suc k)) ?t)" by simp
    with one show False by (metis not_numeral_le_zero one_le_numeral order.trans
          Suc_1 not_less_eq_eq)
  qed
qed

theorem daemon_non_overlap_iff_witness:
  "length (cyclesInFlight 0 5 (\<lambda>k. 2000) 4 600500) \<le> 1 \<and>
   cyclesInFlight 0 5 (\<lambda>k. 2000) 4 600500 = [2]"
proof -
  have pos: "\<forall>k. 0 < (\<lambda>k::nat. 2000::int) k" by simp
  have short: "\<forall>k \<ge> 1. (\<lambda>k::nat. 2000::int) k \<le> timerDelay (intervalMs 5)"
    by (simp add: timerDelay_def intervalMs_def)
  from daemon_non_overlap_iff [OF pos, of 0 5] short
  have "length (cyclesInFlight 0 5 (\<lambda>k. 2000) 4 600500) \<le> 1" by blast
  moreover have "cyclesInFlight 0 5 (\<lambda>k. 2000) 4 600500 = [2]" by code_simp
  ultimately show ?thesis by simp
qed

end
